theory Spec2Isabelle
  imports Complex_Main "HOL-Library.Word" "HOL-Library.Sublist"
begin

section \<open>Threshold evaluation of the Lighthouse audit (lighthouse-test.js)\<close>

text \<open>
  \<^verbatim>\<open>runLighthouseAudit\<close> rounds four category scores of the audit tool's JSON result,
  compares each with \<^verbatim>\<open>CONFIG.thresholds[category]\<close> and returns whether all comparisons
  hold. A score set is the list \<^verbatim>\<open>Object.entries(scores)\<close>: category names with the
  rounded scores, in insertion order. A threshold configuration is an object read by
  property name; a name that is not a property reads as \<^verbatim>\<open>undefined\<close>, here \<open>None\<close>.
  A score is the integer that \<^verbatim>\<open>Math.round\<close> has returned.
\<close>

type_synonym score_set = "(string \<times> int) list"
type_synonym thresholds = "string \<rightharpoonup> int"

text \<open>\<^verbatim>\<open>CONFIG.thresholds\<close>, lighthouse-test.js lines 21-26.\<close>

definition CONFIG_thresholds :: thresholds where
  "CONFIG_thresholds =
     [''performance'' \<mapsto> 90, ''accessibility'' \<mapsto> 95, ''bestPractices'' \<mapsto> 90, ''seo'' \<mapsto> 95]"

text \<open>
  \<^verbatim>\<open>score >= threshold\<close> of JavaScript: \<^verbatim>\<open>undefined\<close> converts to NaN, and every
  comparison with NaN is false.
\<close>

fun js_ge :: "int \<Rightarrow> int option \<Rightarrow> bool" where
  "js_ge score None = False"
| "js_ge score (Some threshold) = (threshold \<le> score)"

text \<open>
  The callback of line 130-131 (the same comparison decides the printed mark of
  lines 86-87): \<^verbatim>\<open>([category, score]) => score >= CONFIG.thresholds[category]\<close>.
\<close>

definition categoryPassed :: "thresholds \<Rightarrow> string \<times> int \<Rightarrow> bool" where
  "categoryPassed T entry = js_ge (snd entry) (T (fst entry))"

text \<open>Lines 130-132: \<^verbatim>\<open>Object.entries(scores).every(...)\<close>.\<close>

definition allPassed :: "thresholds \<Rightarrow> score_set \<Rightarrow> bool" where
  "allPassed T scores = list_all (categoryPassed T) scores"

text \<open>
  What the awaited call of a suite function can do: resolve to a value, reject with
  an error (of which the callers read \<^verbatim>\<open>error.message\<close>), or end the process through
  \<^verbatim>\<open>process.exit(1)\<close> (lighthouse-test.js line 53, browser-test.js line 216).
\<close>

datatype 'a outcome = Returns 'a | Throws string | Exits

text \<open>
  The audit itself. Its inputs are what the outside world answers: whether the
  \<^verbatim>\<open>curl\<close> probe of line 48 succeeds, and what running the tool and parsing its
  JSON report gives: an error thrown somewhere in lines 56-79, or the four rounded
  scores. Everything after the probe is inside the \<^verbatim>\<open>try\<close> of line 44, whose
  \<^verbatim>\<open>catch\<close> (lines 142-145) returns false.
\<close>

record audit_env =
  serverAccessible :: bool
  toolResult :: "string + score_set"

definition runLighthouseAudit :: "thresholds \<Rightarrow> audit_env \<Rightarrow> bool outcome" where
  "runLighthouseAudit T env =
     (if \<not> serverAccessible env then Exits
      else case toolResult env of
             Inl message \<Rightarrow> Returns False
           | Inr scores \<Rightarrow> if allPassed T scores then Returns True else Returns False)"

section \<open>Numbers and strings of JavaScript\<close>

text \<open>
  A JavaScript number is an IEEE 754 binary64 value. The only arithmetic on numbers in
  the modelled code that is not exact is the percentage of integration-test.js line 125,
  \<^verbatim>\<open>Math.round((passedTests / totalTests) * 100)\<close>: the quotient of two integers is
  rounded to the nearest double, the product with 100 is rounded again. Doubles are
  modelled by the rationals they denote, and \<open>binary64\<close> maps a rational to the nearest
  one with a 53-bit significand, ties going to the even significand. The exponent range
  of the format (overflow, subnormal numbers) is left out: the quotients and products
  here lie between \<open>2\<^sup>-\<^sup>1\<^sup>0\<^sup>0\<^sup>0\<close> and 100.
\<close>

definition round_ties_even :: "rat \<Rightarrow> int" where
  "round_ties_even x =
     (let n = \<lfloor>x\<rfloor>; d = x - of_int n
      in if d < 1 / 2 then n else if 1 / 2 < d then n + 1 else if even n then n else n + 1)"

text \<open>The number of binary digits of a positive integer.\<close>

function bit_length :: "int \<Rightarrow> int" where
  "bit_length n = (if n \<le> 0 then 0 else 1 + bit_length (n div 2))"
  by pat_completeness auto
termination
  by (relation "measure nat") auto

declare bit_length.simps [simp del]

text \<open>For \<open>x > 0\<close>, the integer \<open>e\<close> with \<open>2\<^sup>e \<le> x < 2\<^sup>e\<^sup>+\<^sup>1\<close>.\<close>

definition ilog2 :: "rat \<Rightarrow> int" where
  "ilog2 x =
     (let (a, b) = quotient_of x;
          d = bit_length a - bit_length b
      in if 2 powi d \<le> x then d else d - 1)"

definition binary64 :: "rat \<Rightarrow> rat" where
  "binary64 x =
     (if x = 0 then 0
      else let ulp = 2 powi (ilog2 \<bar>x\<bar> - 52)
           in of_int (round_ties_even (x / ulp)) * ulp)"

text \<open>\<^verbatim>\<open>Math.round\<close>: the nearest integer, a tie going up.\<close>

definition Math_round :: "rat \<Rightarrow> int" where
  "Math_round x = \<lfloor>x + 1 / 2\<rfloor>"

text \<open>
  Strings are written out as files in UTF-8, and the report code only concatenates them,
  so a string is modelled by its UTF-8 bytes (\<^typ>\<open>string\<close>). The decimal form of a
  non-negative integer, as a template literal or \<^verbatim>\<open>JSON.stringify\<close> prints it (below
  \<open>10\<^sup>2\<^sup>1\<close>):
\<close>

definition digit :: "nat \<Rightarrow> char" where
  "digit d = ''0123456789'' ! d"

function decimal :: "nat \<Rightarrow> string" where
  "decimal n = (if n < 10 then [digit n] else decimal (n div 10) @ [digit (n mod 10)])"
  by pat_completeness auto
termination
  by (relation "measure id") auto

declare decimal.simps [simp del]

definition Number_toString :: "int \<Rightarrow> string" where
  "Number_toString n = (if n < 0 then ''-'' @ decimal (nat (- n)) else decimal (nat n))"

section \<open>The aggregated results and their report (integration-test.js)\<close>

text \<open>
  The runner only ever writes the three status strings below, and
  \<^verbatim>\<open>generateComprehensiveReport\<close> is not exported: the \<^verbatim>\<open>default\<close> branches of
  \<^verbatim>\<open>statusIcon\<close> and \<^verbatim>\<open>statusColor\<close> (lines 150 and 159) are never taken.
\<close>

datatype status = PASSED | FAILED | SKIPPED

fun status_string :: "status \<Rightarrow> string" where
  "status_string PASSED = ''PASSED''"
| "status_string FAILED = ''FAILED''"
| "status_string SKIPPED = ''SKIPPED''"

text \<open>
  A result object has \<^verbatim>\<open>status\<close> and \<^verbatim>\<open>description\<close>, and \<^verbatim>\<open>error\<close> or
  \<^verbatim>\<open>details\<close> where the runner sets them (lines 327-345).
\<close>

record suite_result =
  status :: status
  description :: string
  error :: "string option"
  details :: "string option"

text \<open>
  \<^verbatim>\<open>const results = {}\<close> (line 313) is a plain object used as a map from suite name to
  result. \<^verbatim>\<open>Object.keys\<close>, \<^verbatim>\<open>Object.values\<close>, \<^verbatim>\<open>Object.entries\<close> and
  \<^verbatim>\<open>JSON.stringify\<close> read its own properties in the order of OrdinaryOwnPropertyKeys:
  first the names that are array indices (the decimal form of an integer from 0 to
  \<open>2\<^sup>3\<^sup>2 - 2\<close>) in ascending numeric order, then the other names in the order of
  their creation. The object is modelled by the list of its own properties in that order.
\<close>

type_synonym results = "(string \<times> suite_result) list"

definition is_digit :: "char \<Rightarrow> bool" where
  "is_digit c \<longleftrightarrow> c \<in> set ''0123456789''"

definition digit_value :: "char \<Rightarrow> nat" where
  "digit_value c = of_char c - 48"

definition index_value :: "string \<Rightarrow> nat" where
  "index_value s = foldl (\<lambda>n c. 10 * n + digit_value c) 0 s"

definition is_array_index :: "string \<Rightarrow> bool" where
  "is_array_index s \<longleftrightarrow>
     s \<noteq> [] \<and> list_all is_digit s \<and> (hd s = CHR ''0'' \<longrightarrow> s = ''0'')
     \<and> index_value s < 4294967295"

text \<open>The value of an existing own property is replaced where it stands.\<close>

fun replace_value :: "string \<Rightarrow> 'v \<Rightarrow> (string \<times> 'v) list \<Rightarrow> (string \<times> 'v) list" where
  "replace_value k v [] = []"
| "replace_value k v ((k', v') # kvs) =
     (if k' = k then (k, v) # kvs else (k', v') # replace_value k v kvs)"

text \<open>A new array index goes before the first name that is no smaller array index.\<close>

fun insert_index :: "string \<Rightarrow> 'v \<Rightarrow> (string \<times> 'v) list \<Rightarrow> (string \<times> 'v) list" where
  "insert_index k v [] = [(k, v)]"
| "insert_index k v ((k', v') # kvs) =
     (if is_array_index k' \<and> index_value k' < index_value k
      then (k', v') # insert_index k v kvs
      else (k, v) # (k', v') # kvs)"

text \<open>
  \<^verbatim>\<open>results[name] = value\<close>, for a value that is an object. The name \<^verbatim>\<open>__proto__\<close>,
  unless it is an own property already, reaches the setter of \<^verbatim>\<open>Object.prototype\<close>:
  the assignment changes the prototype of \<^verbatim>\<open>results\<close> and creates no own property.
\<close>

definition proto_name :: string where
  "proto_name = ''__proto__''"

definition assign :: "string \<Rightarrow> 'v \<Rightarrow> (string \<times> 'v) list \<Rightarrow> (string \<times> 'v) list" where
  "assign k v kvs =
     (if k \<in> set (map fst kvs) then replace_value k v kvs
      else if k = proto_name then kvs
      else if is_array_index k then insert_index k v kvs
      else kvs @ [(k, v)])"

record summary =
  totalTestSuites :: nat
  passed :: nat
  failed :: nat
  skipped :: nat
  overallScore :: int

record environment =
  node :: string
  platform :: string
  arch :: string

record report =
  timestamp :: string
  testSuite :: string
  environment :: environment
  results :: results
  summary :: summary
  requirements :: "(string \<times> string) list"

text \<open>\<^verbatim>\<open>Object.values(results).filter(r => r.status === s).length\<close>, lines 111-113.\<close>

definition count_status :: "status \<Rightarrow> results \<Rightarrow> nat" where
  "count_status s rs = length (filter (\<lambda>r. status r = s) (map snd rs))"

text \<open>Line 125.\<close>

definition overall_score :: "nat \<Rightarrow> nat \<Rightarrow> int" where
  "overall_score passedTests totalTests =
     (if totalTests > 0
      then Math_round (binary64 (binary64 (of_nat passedTests / of_nat totalTests) * 100))
      else 0)"

definition summarize :: "results \<Rightarrow> summary" where
  "summarize rs =
     \<lparr>totalTestSuites = length rs,
      passed = count_status PASSED rs,
      failed = count_status FAILED rs,
      skipped = count_status SKIPPED rs,
      overallScore = overall_score (count_status PASSED rs) (length rs)\<rparr>"

definition testSuite_name :: string where
  "testSuite_name =
     ''Integration Tests - '' @ [CHR 0xE9, CHR 0x97, CHR 0x98, CHR 0xE9, CHR 0xAD, CHR 0x82]
     @ ''Elixir Landing Page''"

definition requirements_table :: "(string \<times> string) list" where
  "requirements_table =
     [(''2.1'', ''GitHub Actions'' @ [CHR 0xE8, CHR 0x87, CHR 0xAA, CHR 0xE5, CHR 0x8B, CHR 0x95,
          CHR 0xE3, CHR 0x83, CHR 0x87, CHR 0xE3, CHR 0x83, CHR 0x97, CHR 0xE3, CHR 0x83, CHR 0xAD,
          CHR 0xE3, CHR 0x82, CHR 0xA4]),
      (''2.2'', [CHR 0xE3, CHR 0x82, CHR 0xAB, CHR 0xE3, CHR 0x82, CHR 0xB9, CHR 0xE3, CHR 0x82,
          CHR 0xBF, CHR 0xE3, CHR 0x83, CHR 0xA0, CHR 0xE3, CHR 0x83, CHR 0x89, CHR 0xE3, CHR 0x83,
          CHR 0xA1, CHR 0xE3, CHR 0x82, CHR 0xA4, CHR 0xE3, CHR 0x83, CHR 0xB3] @ ''HTTPS''
          @ [CHR 0xE6, CHR 0x8E, CHR 0xA5, CHR 0xE7, CHR 0xB6, CHR 0x9A]),
      (''5.1'', ''3'' @ [CHR 0xE7, CHR 0xA7, CHR 0x92, CHR 0xE4, CHR 0xBB, CHR 0xA5, CHR 0xE5,
          CHR 0x86, CHR 0x85, CHR 0xE3, CHR 0x81, CHR 0xAE, CHR 0xE3, CHR 0x83, CHR 0x95, CHR 0xE3,
          CHR 0x82, CHR 0xA1, CHR 0xE3, CHR 0x83, CHR 0xBC, CHR 0xE3, CHR 0x82, CHR 0xB9, CHR 0xE3,
          CHR 0x83, CHR 0x88, CHR 0xE3, CHR 0x83, CHR 0x93, CHR 0xE3, CHR 0x83, CHR 0xA5, CHR 0xE3,
          CHR 0x83, CHR 0xBC, CHR 0xE8, CHR 0xA1, CHR 0xA8, CHR 0xE7, CHR 0xA4, CHR 0xBA])]"

text \<open>
  What the report generator reads from outside: the clock (\<^verbatim>\<open>new Date().toISOString()\<close>),
  the \<^verbatim>\<open>process\<close> object, the locale formatting of the date in the HTML footer, and
  whether each of the two \<^verbatim>\<open>fs.writeFileSync\<close> calls throws (\<open>Some\<close> the message).
\<close>

record report_env =
  now :: string
  process :: environment
  toLocaleString :: "string \<Rightarrow> string"
  writeJson :: "string option"
  writeHtml :: "string option"

text \<open>The object \<^verbatim>\<open>report\<close> once line 125 has added \<^verbatim>\<open>overallScore\<close> to its summary.\<close>

definition build_report :: "report_env \<Rightarrow> results \<Rightarrow> report" where
  "build_report env rs =
     \<lparr>timestamp = now env,
      testSuite = testSuite_name,
      environment = process env,
      results = rs,
      summary = summarize rs,
      requirements = requirements_table\<rparr>"

subsection \<open>The machine-readable rendering: \<^verbatim>\<open>JSON.stringify(report, null, 2)\<close>\<close>

datatype json = JString string | JNumber int | JObject "(string \<times> json) list"

definition hex_digit :: "nat \<Rightarrow> char" where
  "hex_digit d = ''0123456789abcdef'' ! d"

text \<open>
  QuoteJSONString on UTF-8 bytes: the quotation mark, the backslash and the control
  characters are escaped, every other byte is copied.
\<close>

definition quote_char :: "char \<Rightarrow> string" where
  "quote_char c =
     (if c = CHR 0x08 then [CHR 0x5C, CHR ''b'']
      else if c = CHR 0x09 then [CHR 0x5C, CHR ''t'']
      else if c = CHR 0x0A then [CHR 0x5C, CHR ''n'']
      else if c = CHR 0x0C then [CHR 0x5C, CHR ''f'']
      else if c = CHR 0x0D then [CHR 0x5C, CHR ''r'']
      else if c = CHR 0x22 then [CHR 0x5C, CHR 0x22]
      else if c = CHR 0x5C then [CHR 0x5C, CHR 0x5C]
      else if (of_char c :: nat) < 32
        then [CHR 0x5C, CHR ''u'', CHR ''0'', CHR ''0'',
              hex_digit (of_char c div 16), hex_digit (of_char c mod 16)]
      else [c])"

definition quote :: "string \<Rightarrow> string" where
  "quote s = [CHR 0x22] @ concat (map quote_char s) @ [CHR 0x22]"

fun join :: "string \<Rightarrow> string list \<Rightarrow> string" where
  "join sep [] = []"
| "join sep [s] = s"
| "join sep (s # t # ss) = s @ sep @ join sep (t # ss)"

text \<open>
  SerializeJSONProperty and SerializeJSONObject with the gap of two spaces; the first
  argument is the current indentation.
\<close>

fun stringify :: "string \<Rightarrow> json \<Rightarrow> string" where
  "stringify indent (JString s) = quote s"
| "stringify indent (JNumber n) = Number_toString n"
| "stringify indent (JObject []) = ''{}''"
| "stringify indent (JObject (kv # kvs)) =
     ''{'' @ ''\<newline>'' @ (indent @ ''  '')
     @ join ('','' @ ''\<newline>'' @ (indent @ ''  ''))
         (map (\<lambda>p. quote (fst p) @ '': '' @ stringify (indent @ ''  '') (snd p)) (kv # kvs))
     @ ''\<newline>'' @ indent @ ''}''"

definition JSON_stringify :: "json \<Rightarrow> string" where
  "JSON_stringify v = stringify [] v"

text \<open>
  The property order of each object is the order in which the source creates the
  properties (lines 100-120, 125, and 327-345 for a result).
\<close>

definition result_json :: "suite_result \<Rightarrow> json" where
  "result_json r =
     JObject ([(''status'', JString (status_string (status r))),
               (''description'', JString (description r))]
              @ (case error r of None \<Rightarrow> [] | Some e \<Rightarrow> [(''error'', JString e)])
              @ (case details r of None \<Rightarrow> [] | Some d \<Rightarrow> [(''details'', JString d)]))"

definition report_json :: "report \<Rightarrow> json" where
  "report_json rep =
     JObject
       [(''timestamp'', JString (timestamp rep)),
        (''testSuite'', JString (testSuite rep)),
        (''environment'', JObject
           [(''node'', JString (node (environment rep))),
            (''platform'', JString (platform (environment rep))),
            (''arch'', JString (arch (environment rep)))]),
        (''results'', JObject (map (\<lambda>p. (fst p, result_json (snd p))) (results rep))),
        (''summary'', JObject
           [(''totalTestSuites'', JNumber (int (totalTestSuites (summary rep)))),
            (''passed'', JNumber (int (passed (summary rep)))),
            (''failed'', JNumber (int (failed (summary rep)))),
            (''skipped'', JNumber (int (skipped (summary rep)))),
            (''overallScore'', JNumber (overallScore (summary rep)))]),
        (''requirements'', JObject (map (\<lambda>p. (fst p, JString (snd p))) (requirements rep)))]"

subsection \<open>The human-readable rendering: \<^verbatim>\<open>generateHTMLReport\<close>\<close>

text \<open>The constant text of the template literal of lines 163-303, between its holes.\<close>

definition html_before_score :: string where
  "html_before_score =
     ''\<newline>''
     @ ''<!DOCTYPE html>\<newline>''
     @ ''<html lang=\"ja\">\<newline>''
     @ ''<head>\<newline>''
     @ ''    <meta charset=\"UTF-8\">\<newline>''
     @ ''    <meta name=\"viewport\" content=\"width=device-width, initial-scale=1.0\">\<newline>''
     @ ''    <title>Integration Test Report - '' @ [CHR 0xE9, CHR 0x97, CHR 0x98, CHR 0xE9, CHR 0xAD, CHR 0x82] @ ''Elixir</title>\<newline>''
     @ ''    <style>\<newline>''
     @ ''        body {\<newline>''
     @ ''            font-family: -apple-system, BlinkMacSystemFont, '' @ [CHR 0x27] @ ''Segoe UI'' @ [CHR 0x27] @ '', Roboto, sans-serif;\<newline>''
     @ ''            line-height: 1.6;\<newline>''
     @ ''            color: #333;\<newline>''
     @ ''            max-width: 1200px;\<newline>''
     @ ''            margin: 0 auto;\<newline>''
     @ ''            padding: 20px;\<newline>''
     @ ''            background: #f8fafc;\<newline>''
     @ ''        }\<newline>''
     @ ''        .header {\<newline>''
     @ ''            background: linear-gradient(135deg, #ff5b2e, #ffd166);\<newline>''
     @ ''            color: white;\<newline>''
     @ ''            padding: 30px;\<newline>''
     @ ''            border-radius: 12px;\<newline>''
     @ ''            margin-bottom: 30px;\<newline>''
     @ ''            text-align: center;\<newline>''
     @ ''        }\<newline>''
     @ ''        .summary {\<newline>''
     @ ''            display: grid;\<newline>''
     @ ''            grid-template-columns: repeat(auto-fit, minmax(200px, 1fr));\<newline>''
     @ ''            gap: 20px;\<newline>''
     @ ''            margin-bottom: 30px;\<newline>''
     @ ''        }\<newline>''
     @ ''        .summary-card {\<newline>''
     @ ''            background: white;\<newline>''
     @ ''            padding: 20px;\<newline>''
     @ ''            border-radius: 8px;\<newline>''
     @ ''            box-shadow: 0 2px 4px rgba(0,0,0,0.1);\<newline>''
     @ ''            text-align: center;\<newline>''
     @ ''        }\<newline>''
     @ ''        .summary-card h3 {\<newline>''
     @ ''            margin: 0 0 10px 0;\<newline>''
     @ ''            font-size: 2em;\<newline>''
     @ ''            font-weight: bold;\<newline>''
     @ ''        }\<newline>''
     @ ''        .results {\<newline>''
     @ ''            background: white;\<newline>''
     @ ''            border-radius: 8px;\<newline>''
     @ ''            box-shadow: 0 2px 4px rgba(0,0,0,0.1);\<newline>''
     @ ''            overflow: hidden;\<newline>''
     @ ''        }\<newline>''
     @ ''        .result-item {\<newline>''
     @ ''            padding: 20px;\<newline>''
     @ ''            border-bottom: 1px solid #e5e7eb;\<newline>''
     @ ''            display: flex;\<newline>''
     @ ''            align-items: center;\<newline>''
     @ ''            justify-content: space-between;\<newline>''
     @ ''        }\<newline>''
     @ ''        .result-item:last-child {\<newline>''
     @ ''            border-bottom: none;\<newline>''
     @ ''        }\<newline>''
     @ ''        .result-info {\<newline>''
     @ ''            flex: 1;\<newline>''
     @ ''        }\<newline>''
     @ ''        .result-status {\<newline>''
     @ ''            padding: 6px 12px;\<newline>''
     @ ''            border-radius: 20px;\<newline>''
     @ ''            font-weight: bold;\<newline>''
     @ ''            color: white;\<newline>''
     @ ''        }\<newline>''
     @ ''        .requirements {\<newline>''
     @ ''            background: white;\<newline>''
     @ ''            padding: 20px;\<newline>''
     @ ''            border-radius: 8px;\<newline>''
     @ ''            box-shadow: 0 2px 4px rgba(0,0,0,0.1);\<newline>''
     @ ''            margin-top: 30px;\<newline>''
     @ ''        }\<newline>''
     @ ''        .timestamp {\<newline>''
     @ ''            text-align: center;\<newline>''
     @ ''            color: #6b7280;\<newline>''
     @ ''            margin-top: 30px;\<newline>''
     @ ''            font-size: 0.9em;\<newline>''
     @ ''        }\<newline>''
     @ ''    </style>\<newline>''
     @ ''</head>\<newline>''
     @ ''<body>\<newline>''
     @ ''    <div class=\"header\">\<newline>''
     @ ''        <h1>'' @ [CHR 0xF0, CHR 0x9F, CHR 0x94, CHR 0xA5] @ '' Integration Test Report</h1>\<newline>''
     @ ''        <h2>'' @ [CHR 0xE9, CHR 0x97, CHR 0x98, CHR 0xE9, CHR 0xAD, CHR 0x82] @ ''Elixir Landing Page</h2>\<newline>''
     @ ''        <p>Overall Score: ''"

definition html_before_passed :: string where
  "html_before_passed =
     ''%</p>\<newline>''
     @ ''    </div>\<newline>''
     @ ''    \<newline>''
     @ ''    <div class=\"summary\">\<newline>''
     @ ''        <div class=\"summary-card\">\<newline>''
     @ ''            <h3 style=\"color: #22c55e\">''"

definition html_before_failed :: string where
  "html_before_failed =
     ''</h3>\<newline>''
     @ ''            <p>Tests Passed</p>\<newline>''
     @ ''        </div>\<newline>''
     @ ''        <div class=\"summary-card\">\<newline>''
     @ ''            <h3 style=\"color: #ef4444\">''"

definition html_before_skipped :: string where
  "html_before_skipped =
     ''</h3>\<newline>''
     @ ''            <p>Tests Failed</p>\<newline>''
     @ ''        </div>\<newline>''
     @ ''        <div class=\"summary-card\">\<newline>''
     @ ''            <h3 style=\"color: #f59e0b\">''"

definition html_before_total :: string where
  "html_before_total =
     ''</h3>\<newline>''
     @ ''            <p>Tests Skipped</p>\<newline>''
     @ ''        </div>\<newline>''
     @ ''        <div class=\"summary-card\">\<newline>''
     @ ''            <h3>''"

definition html_before_results :: string where
  "html_before_results =
     ''</h3>\<newline>''
     @ ''            <p>Total Test Suites</p>\<newline>''
     @ ''        </div>\<newline>''
     @ ''    </div>\<newline>''
     @ ''    \<newline>''
     @ ''    <div class=\"results\">\<newline>''
     @ ''        <h2 style=\"padding: 20px; margin: 0; background: #f8fafc; border-bottom: 1px solid #e5e7eb;\">Test Results</h2>\<newline>''
     @ ''        ''"

definition html_before_requirements :: string where
  "html_before_requirements =
     ''\<newline>''
     @ ''    </div>\<newline>''
     @ ''    \<newline>''
     @ ''    <div class=\"requirements\">\<newline>''
     @ ''        <h2>Requirements Coverage</h2>\<newline>''
     @ ''        <ul>\<newline>''
     @ ''            ''"

definition html_before_timestamp :: string where
  "html_before_timestamp =
     ''\<newline>''
     @ ''        </ul>\<newline>''
     @ ''    </div>\<newline>''
     @ ''    \<newline>''
     @ ''    <div class=\"timestamp\">\<newline>''
     @ ''        Generated on ''"

definition html_after_timestamp :: string where
  "html_after_timestamp =
     ''\<newline>''
     @ ''    </div>\<newline>''
     @ ''</body>\<newline>''
     @ ''</html>\<newline>''
     @ ''  ''"

fun statusIcon :: "status \<Rightarrow> string" where
  "statusIcon PASSED = [CHR 0xE2, CHR 0x9C, CHR 0x85]"
| "statusIcon FAILED = [CHR 0xE2, CHR 0x9D, CHR 0x8C]"
| "statusIcon SKIPPED = [CHR 0xE2, CHR 0x8F, CHR 0xAD, CHR 0xEF, CHR 0xB8, CHR 0x8F]"

fun statusColor :: "status \<Rightarrow> string" where
  "statusColor PASSED = ''#22c55e''"
| "statusColor FAILED = ''#ef4444''"
| "statusColor SKIPPED = ''#f59e0b''"

text \<open>
  Lines 279 and 280. The condition is the truthiness of the field: an absent field
  (\<^verbatim>\<open>undefined\<close>) and the empty string both give the empty text.
\<close>

definition error_paragraph :: "suite_result \<Rightarrow> string" where
  "error_paragraph r =
     (case error r of
        None \<Rightarrow> []
      | Some e \<Rightarrow> if e = [] then []
                  else ''<p style=\"color: #ef4444; font-size: 0.9em;\">Error: '' @ e @ ''</p>'')"

definition details_paragraph :: "suite_result \<Rightarrow> string" where
  "details_paragraph r =
     (case details r of
        None \<Rightarrow> []
      | Some d \<Rightarrow> if d = [] then []
                  else ''<p style=\"color: #6b7280; font-size: 0.9em;\">'' @ d @ ''</p>'')"

text \<open>The callback of lines 274-286, applied to one entry of \<^verbatim>\<open>report.results\<close>.\<close>

definition result_item :: "string \<times> suite_result \<Rightarrow> string" where
  "result_item entry =
     ''\<newline>''
     @ ''            <div class=\"result-item\">\<newline>''
     @ ''                <div class=\"result-info\">\<newline>''
     @ ''                    <h3>'' @ statusIcon (status (snd entry)) @ '' '' @ fst entry @ ''</h3>\<newline>''
     @ ''                    <p>'' @ description (snd entry) @ ''</p>\<newline>''
     @ ''                    '' @ error_paragraph (snd entry) @ ''\<newline>''
     @ ''                    '' @ details_paragraph (snd entry) @ ''\<newline>''
     @ ''                </div>\<newline>''
     @ ''                <div class=\"result-status\" style=\"background-color: ''
         @ statusColor (status (snd entry)) @ ''\">\<newline>''
     @ ''                    '' @ status_string (status (snd entry)) @ ''\<newline>''
     @ ''                </div>\<newline>''
     @ ''            </div>\<newline>''
     @ ''        ''"

text \<open>The callback of lines 292-294.\<close>

definition requirement_item :: "string \<times> string \<Rightarrow> string" where
  "requirement_item entry =
     ''\<newline>''
     @ ''                <li><strong>'' @ fst entry @ '':</strong> '' @ snd entry @ ''</li>\<newline>''
     @ ''            ''"

definition generateHTMLReport :: "(string \<Rightarrow> string) \<Rightarrow> report \<Rightarrow> string" where
  "generateHTMLReport localeString rep =
     html_before_score @ Number_toString (overallScore (summary rep))
     @ html_before_passed @ decimal (passed (summary rep))
     @ html_before_failed @ decimal (failed (summary rep))
     @ html_before_skipped @ decimal (skipped (summary rep))
     @ html_before_total @ decimal (totalTestSuites (summary rep))
     @ html_before_results @ concat (map result_item (results rep))
     @ html_before_requirements @ concat (map requirement_item (requirements rep))
     @ html_before_timestamp @ localeString (timestamp rep)
     @ html_after_timestamp"

subsection \<open>\<^verbatim>\<open>generateComprehensiveReport\<close>\<close>

text \<open>
  A written file: the directory and the file name given to \<^verbatim>\<open>path.join\<close>, and the
  content. The file names embed the time stamp with \<open>:\<close> and \<open>.\<close> replaced by \<open>-\<close>.
\<close>

record written_file =
  directory :: string
  file_name :: string
  content :: string

definition file_stamp :: "string \<Rightarrow> string" where
  "file_stamp ts = map (\<lambda>c. if c = CHR '':'' \<or> c = CHR ''.'' then CHR ''-'' else c) ts"

text \<open>
  The function returns the report, or throws what \<^verbatim>\<open>fs.writeFileSync\<close> throws; the
  first component lists the files written until then.
\<close>

definition generateComprehensiveReport ::
    "string \<Rightarrow> report_env \<Rightarrow> results \<Rightarrow> written_file list \<times> (string + report)" where
  "generateComprehensiveReport outputDir env rs =
     (let rep = build_report env rs;
          jsonFile = \<lparr>directory = outputDir,
                      file_name = ''integration-test-report-'' @ file_stamp (timestamp rep) @ ''.json'',
                      content = JSON_stringify (report_json rep)\<rparr>;
          htmlFile = \<lparr>directory = outputDir,
                      file_name = ''integration-test-report-'' @ file_stamp (timestamp rep) @ ''.html'',
                      content = generateHTMLReport (toLocaleString env) rep\<rparr>
      in case writeJson env of
           Some message \<Rightarrow> ([], Inl message)
         | None \<Rightarrow>
             (case writeHtml env of
                Some message \<Rightarrow> ([jsonFile], Inl message)
              | None \<Rightarrow> ([jsonFile, htmlFile], Inr rep)))"

subsection \<open>\<^verbatim>\<open>runIntegrationTests\<close> and the exit code of the script\<close>

record config =
  outputDir :: string
  runLocal :: bool
  runDeployment :: bool

definition CONFIG :: config where
  "CONFIG = \<lparr>outputDir = ''./integration-test-reports'', runLocal = True, runDeployment = True\<rparr>"

datatype suite = Lighthouse | Browser | Deployment

text \<open>
  What one run meets: the answers of the two calls of \<^verbatim>\<open>checkLocalServer()\<close> (lines
  323 and 355), what each suite function does when it is awaited, and the surroundings
  of the report generator. \<^verbatim>\<open>installDependencies\<close> catches every failure of its
  commands and has no part in the results.
\<close>

record run_env = report_env +
  serverCheck1 :: bool
  serverCheck2 :: bool
  lighthouseRun :: "bool outcome"
  browserRun :: "bool outcome"
  deploymentRun :: "bool outcome"

text \<open>
  The state of the run: the \<^verbatim>\<open>results\<close> object, the suite functions called so far,
  and whether a suite has ended the process.
\<close>

record run_state =
  recorded :: results
  invoked :: "suite list"
  exited :: bool

definition skipped_result :: "string \<Rightarrow> suite_result" where
  "skipped_result desc =
     \<lparr>status = SKIPPED, description = desc,
      error = Some ''Local server not accessible'', details = None\<rparr>"

text \<open>
  One \<^verbatim>\<open>try { const r = await suite(); results[key] = ... } catch (error) { results[key] = ... }\<close>
  (lines 333-346, 362-375, 386-399).
\<close>

definition awaitSuite ::
    "suite \<Rightarrow> string \<Rightarrow> string \<Rightarrow> string \<Rightarrow> bool outcome \<Rightarrow> run_state \<Rightarrow> run_state" where
  "awaitSuite s key desc det out st =
     (case out of
        Returns r \<Rightarrow>
          st\<lparr>invoked := invoked st @ [s],
             recorded := assign key
               \<lparr>status = (if r then PASSED else FAILED), description = desc,
                error = None, details = Some det\<rparr> (recorded st)\<rparr>
      | Throws message \<Rightarrow>
          st\<lparr>invoked := invoked st @ [s],
             recorded := assign key
               \<lparr>status = FAILED, description = desc,
                error = Some message, details = None\<rparr> (recorded st)\<rparr>
      | Exits \<Rightarrow> st\<lparr>invoked := invoked st @ [s], exited := True\<rparr>)"

text \<open>Lines 323-347.\<close>

definition lighthouseStep :: "run_env \<Rightarrow> run_state \<Rightarrow> run_state" where
  "lighthouseStep env st =
     (if exited st then st
      else if \<not> serverCheck1 env
        then st\<lparr>recorded := assign ''lighthouseAudit''
                  (skipped_result ''Lighthouse performance audit'') (recorded st)\<rparr>
      else awaitSuite Lighthouse ''lighthouseAudit'' ''Lighthouse performance audit''
             ''Performance, accessibility, SEO, and best practices validation''
             (lighthouseRun env) st)"

text \<open>Lines 355-376.\<close>

definition browserStep :: "run_env \<Rightarrow> run_state \<Rightarrow> run_state" where
  "browserStep env st =
     (if exited st then st
      else if \<not> serverCheck2 env
        then st\<lparr>recorded := assign ''browserTests''
                  (skipped_result ''Cross-browser compatibility tests'') (recorded st)\<rparr>
      else awaitSuite Browser ''browserTests'' ''Cross-browser compatibility tests''
             ''Responsive design, animations, and accessibility across browsers''
             (browserRun env) st)"

text \<open>Lines 386-399.\<close>

definition deploymentStep :: "run_env \<Rightarrow> run_state \<Rightarrow> run_state" where
  "deploymentStep env st =
     (if exited st then st
      else awaitSuite Deployment ''deploymentVerification''
             ''GitHub Pages deployment verification''
             ''GitHub Actions, custom domain, HTTPS, and SEO validation''
             (deploymentRun env) st)"

text \<open>Lines 313-402: the state when the suites are done (or the process has ended).\<close>

definition runSuites :: "config \<Rightarrow> run_env \<Rightarrow> run_state" where
  "runSuites cfg env =
     (let st0 = \<lparr>recorded = [], invoked = [], exited = False\<rparr>;
          st1 = (if runLocal cfg then browserStep env (lighthouseStep env st0) else st0)
      in if runDeployment cfg then deploymentStep env st1 else st1)"

text \<open>
  The whole function: the final state, the files written, and how the call ends. It
  resolves to \<^verbatim>\<open>report.summary.failed === 0\<close> (line 428; the report is kept beside it),
  rejects with what the report generator throws, or never settles because a suite has
  ended the process.
\<close>

record run_result =
  final :: run_state
  files :: "written_file list"
  ending :: "(report \<times> bool) outcome"

definition runIntegrationTests :: "config \<Rightarrow> run_env \<Rightarrow> run_result" where
  "runIntegrationTests cfg env =
     (let st = runSuites cfg env
      in if exited st then \<lparr>final = st, files = [], ending = Exits\<rparr>
         else case generateComprehensiveReport (outputDir cfg) (report_env.truncate env) (recorded st) of
                (written, Inl message) \<Rightarrow> \<lparr>final = st, files = written, ending = Throws message\<rparr>
              | (written, Inr rep) \<Rightarrow>
                  \<lparr>final = st, files = written,
                   ending = Returns (rep, failed (summary rep) = 0)\<rparr>)"

text \<open>
  Lines 432-441: \<^verbatim>\<open>process.exit(success ? 0 : 1)\<close> when the call resolves,
  \<^verbatim>\<open>process.exit(1)\<close> when it rejects; a suite that ends the process does so with
  \<^verbatim>\<open>process.exit(1)\<close>.
\<close>

fun exit_code :: "(report \<times> bool) outcome \<Rightarrow> nat" where
  "exit_code (Returns (rep, success)) = (if success then 0 else 1)"
| "exit_code (Throws message) = 1"
| "exit_code Exits = 1"

definition main :: "config \<Rightarrow> run_env \<Rightarrow> nat" where
  "main cfg env = exit_code (ending (runIntegrationTests cfg env))"

section \<open>The minifiers (build.js)\<close>

text \<open>
  The regular expressions of \<^verbatim>\<open>minifyCSS\<close> and \<^verbatim>\<open>minifyJS\<close> have no \<^verbatim>\<open>u\<close> flag:
  they work on the UTF-16 code units of the string, and \<^verbatim>\<open>s.length\<close> counts code
  units. A string is here the list of its code units.
\<close>

type_synonym code_unit = "16 word"
type_synonym js_string = "code_unit list"

text \<open>\<^verbatim>\<open>\s\<close>: the white space and line terminator characters of ECMAScript.\<close>

definition is_space :: "code_unit \<Rightarrow> bool" where
  "is_space c \<longleftrightarrow>
     c = 0x09 \<or> c = 0x0A \<or> c = 0x0B \<or> c = 0x0C \<or> c = 0x0D \<or> c = 0x20 \<or> c = 0xA0
     \<or> c = 0x1680 \<or> (0x2000 \<le> c \<and> c \<le> 0x200A) \<or> c = 0x2028 \<or> c = 0x2029
     \<or> c = 0x202F \<or> c = 0x205F \<or> c = 0x3000 \<or> c = 0xFEFF"

text \<open>The characters that \<^verbatim>\<open>.\<close> does not match and before which \<^verbatim>\<open>$\<close> holds with the \<^verbatim>\<open>m\<close> flag.\<close>

definition is_line_terminator :: "code_unit \<Rightarrow> bool" where
  "is_line_terminator c \<longleftrightarrow> c = 0x0A \<or> c = 0x0D \<or> c = 0x2028 \<or> c = 0x2029"

text \<open>\<^verbatim>\<open>['"`]\<close>\<close>

definition is_quote :: "code_unit \<Rightarrow> bool" where
  "is_quote c \<longleftrightarrow> c = 0x27 \<or> c = 0x22 \<or> c = 0x60"

text \<open>\<^verbatim>\<open>[{}:;,>+~]\<close> of \<^verbatim>\<open>minifyCSS\<close> and \<^verbatim>\<open>[{}();,=+\-*/<>!&|]\<close> of \<^verbatim>\<open>minifyJS\<close>.\<close>

definition css_punctuation :: "code_unit \<Rightarrow> bool" where
  "css_punctuation c \<longleftrightarrow>
     c = 0x7B \<or> c = 0x7D \<or> c = 0x3A \<or> c = 0x3B \<or> c = 0x2C \<or> c = 0x3E \<or> c = 0x2B \<or> c = 0x7E"

definition js_punctuation :: "code_unit \<Rightarrow> bool" where
  "js_punctuation c \<longleftrightarrow>
     c = 0x7B \<or> c = 0x7D \<or> c = 0x28 \<or> c = 0x29 \<or> c = 0x3B \<or> c = 0x2C \<or> c = 0x3D
     \<or> c = 0x2B \<or> c = 0x2D \<or> c = 0x2A \<or> c = 0x2F \<or> c = 0x3C \<or> c = 0x3E \<or> c = 0x21
     \<or> c = 0x26 \<or> c = 0x7C"

text \<open>
  \<^verbatim>\<open>s.replace(re, replacement)\<close> with the \<^verbatim>\<open>g\<close> flag scans from the left: where the
  expression matches, the match is replaced and the scan goes on behind it; where it
  does not, the code unit is kept and the scan goes on one position further. Each
  expression below has at most one way to match at a position, which the function
  spells out.

  \<^verbatim>\<open>/\/\*[\s\S]*?\*\//g\<close> to the empty string: \<open>/*\<close>, then as little as possible up to the
  first \<open>*/\<close> behind it. \<open>after_comment_end\<close> gives what follows that first \<open>*/\<close>.
\<close>

fun after_comment_end :: "js_string \<Rightarrow> js_string option" where
  "after_comment_end (a # b # cs) =
     (if a = 0x2A \<and> b = 0x2F then Some cs else after_comment_end (b # cs))"
| "after_comment_end cs = None"

lemma after_comment_end_length [termination_simp]:
  "after_comment_end cs = Some rest \<Longrightarrow> length rest < length cs"
  by (induction cs arbitrary: rest rule: after_comment_end.induct) (auto split: if_splits)

fun remove_block_comments :: "js_string \<Rightarrow> js_string" where
  "remove_block_comments (a # b # cs) =
     (if a = 0x2F \<and> b = 0x2A
      then (case after_comment_end cs of
              Some rest \<Rightarrow> remove_block_comments rest
            | None \<Rightarrow> a # remove_block_comments (b # cs))
      else a # remove_block_comments (b # cs))"
| "remove_block_comments cs = cs"

text \<open>\<^verbatim>\<open>/\s+/g\<close> to one space: a maximal run of white space.\<close>

lemma length_dropWhile_less_Suc [termination_simp]:
  "length (dropWhile P xs) < Suc (length xs)"
  by (simp add: length_dropWhile_le le_imp_less_Suc)

fun collapse_whitespace :: "js_string \<Rightarrow> js_string" where
  "collapse_whitespace [] = []"
| "collapse_whitespace (c # cs) =
     (if is_space c then 0x20 # collapse_whitespace (dropWhile is_space cs)
      else c # collapse_whitespace cs)"

text \<open>
  \<^verbatim>\<open>/\s*([P])\s*/g\<close> to \<^verbatim>\<open>$1\<close>, for a class \<open>P\<close> without white space: all the white
  space at the position, one character of the class, all the white space behind it.
  When the white space is not followed by a character of the class, giving back some
  of it does not help, and there is no match at the position.
\<close>

lemma length_after_dropWhile:
  "dropWhile Q xs = p # rest \<Longrightarrow> length (dropWhile Q' rest) < length xs"
proof -
  assume a: "dropWhile Q xs = p # rest"
  have "length (dropWhile Q' rest) \<le> length rest" by (rule length_dropWhile_le)
  also have "\<dots> < length (dropWhile Q xs)" by (simp add: a)
  also have "\<dots> \<le> length xs" by (rule length_dropWhile_le)
  finally show ?thesis .
qed

function strip_around :: "(code_unit \<Rightarrow> bool) \<Rightarrow> js_string \<Rightarrow> js_string" where
  "strip_around P [] = []"
| "strip_around P (c # cs) =
     (case dropWhile is_space (c # cs) of
        [] \<Rightarrow> c # strip_around P cs
      | p # rest \<Rightarrow>
          if P p then p # strip_around P (dropWhile is_space rest)
          else c # strip_around P cs)"
  by pat_completeness auto
termination
proof (relation "measure (\<lambda>(P, s). length s)", goal_cases)
  case 1
  show ?case by simp
next
  case (2 P c cs)
  show ?case by simp
next
  case (3 P c cs p rest)
  then show ?case
    using length_after_dropWhile [of is_space "c # cs" p rest is_space] by simp
next
  case (4 P c cs p rest)
  show ?case by simp
qed

text \<open>\<^verbatim>\<open>/;}/g\<close> to \<open>}\<close>.\<close>

fun drop_last_semicolons :: "js_string \<Rightarrow> js_string" where
  "drop_last_semicolons (a # b # cs) =
     (if a = 0x3B \<and> b = 0x7D then 0x7D # drop_last_semicolons cs
      else a # drop_last_semicolons (b # cs))"
| "drop_last_semicolons cs = cs"

text \<open>\<^verbatim>\<open>String.prototype.trim\<close> removes the characters of \<^verbatim>\<open>\s\<close> at both ends.\<close>

definition trim :: "js_string \<Rightarrow> js_string" where
  "trim s = rev (dropWhile is_space (rev (dropWhile is_space s)))"

text \<open>
  \<^verbatim>\<open>/\/\/(?![^\n]*['"`]).*$/gm\<close> to the empty string: \<open>//\<close>, provided no quote character
  follows before the next line feed, and then everything up to the next line terminator
  or the end of the string, where \<^verbatim>\<open>$\<close> holds.
\<close>

fun remove_line_comments :: "js_string \<Rightarrow> js_string" where
  "remove_line_comments (a # b # cs) =
     (if a = 0x2F \<and> b = 0x2F \<and> \<not> list_ex is_quote (takeWhile (\<lambda>c. c \<noteq> 0x0A) cs)
      then remove_line_comments (dropWhile (\<lambda>c. \<not> is_line_terminator c) cs)
      else a # remove_line_comments (b # cs))"
| "remove_line_comments cs = cs"

text \<open>build.js lines 12-24 and 27-40.\<close>

definition minifyCSS :: "js_string \<Rightarrow> js_string" where
  "minifyCSS css =
     trim (drop_last_semicolons (strip_around css_punctuation
       (collapse_whitespace (remove_block_comments css))))"

definition minifyJS :: "js_string \<Rightarrow> js_string" where
  "minifyJS js =
     trim (drop_last_semicolons (strip_around js_punctuation
       (collapse_whitespace (remove_block_comments (remove_line_comments js)))))"

text \<open>
  \<^verbatim>\<open>Buffer.byteLength(s, 'utf8')\<close> (build.js lines 55-56 and 71-72): one to three bytes
  for a code unit by its value, four for a high surrogate followed by a low one, and
  three (the replacement character) for a surrogate without its partner.
\<close>

definition is_high_surrogate :: "code_unit \<Rightarrow> bool" where
  "is_high_surrogate c \<longleftrightarrow> 0xD800 \<le> c \<and> c \<le> 0xDBFF"

definition is_low_surrogate :: "code_unit \<Rightarrow> bool" where
  "is_low_surrogate c \<longleftrightarrow> 0xDC00 \<le> c \<and> c \<le> 0xDFFF"

fun byteLength :: "js_string \<Rightarrow> nat" where
  "byteLength [] = 0"
| "byteLength [a] = (if a < 0x80 then 1 else if a < 0x800 then 2 else 3)"
| "byteLength (a # b # cs) =
     (if a < 0x80 then 1 + byteLength (b # cs)
      else if a < 0x800 then 2 + byteLength (b # cs)
      else if is_high_surrogate a \<and> is_low_surrogate b then 4 + byteLength cs
      else 3 + byteLength (b # cs))"

text \<open>
  The same count, one code unit at a time: the flag says that the code unit before is
  a high surrogate, and then a low surrogate adds the fourth byte of the pair.
\<close>

fun unit_bytes :: "code_unit \<Rightarrow> nat" where
  "unit_bytes c = (if c < 0x80 then 1 else if c < 0x800 then 2 else 3)"

fun ulen :: "bool \<Rightarrow> js_string \<Rightarrow> nat" where
  "ulen h [] = 0"
| "ulen h (c # cs) = (if h \<and> is_low_surrogate c then 1 else unit_bytes c) + ulen (is_high_surrogate c) cs"

section \<open>Notions used to state the properties\<close>

text \<open>
  A sequence of recordings \<^verbatim>\<open>results[name] = value\<close>, applied in order to a results
  object.
\<close>

definition record_all :: "(string \<times> suite_result) list \<Rightarrow> results \<Rightarrow> results" where
  "record_all writes rs = foldl (\<lambda>acc w. assign (fst w) (snd w) acc) rs writes"


text \<open>
  A run environment for the examples: the answer of both server checks, and what the
  three suites do; both report files can be written.
\<close>

definition example_env :: "bool \<Rightarrow> bool outcome \<Rightarrow> bool outcome \<Rightarrow> bool outcome \<Rightarrow> run_env" where
  "example_env serverUp l b d =
     \<lparr>now = ''2025-01-01T00:00:00.000Z'',
      process = \<lparr>node = ''v20.0.0'', platform = ''linux'', arch = ''x64''\<rparr>,
      toLocaleString = (\<lambda>ts. ts), writeJson = None, writeHtml = None,
      serverCheck1 = serverUp, serverCheck2 = serverUp,
      lighthouseRun = l, browserRun = b, deploymentRun = d\<rparr>"

text \<open>
  A text in which the letters \<open>Er\<close> do not follow each other and which does not end in
  \<open>E\<close>: however such texts are put together, the beginning of the error marker
  \<^verbatim>\<open>Error: \<close> of the HTML report does not arise.
\<close>

fun marker_free :: "string \<Rightarrow> bool" where
  "marker_free [] = True"
| "marker_free [x] = (x \<noteq> CHR ''E'')"
| "marker_free (x # y # s) = ((x = CHR ''E'' \<longrightarrow> y \<noteq> CHR ''r'') \<and> marker_free (y # s))"

text \<open>
  The score as the specification words it: 100 times the passed count over the total,
  rounded to the nearest integer (a tie going up, as \<^verbatim>\<open>Math.round\<close> has it), in exact
  arithmetic; 0 for no results.
\<close>

definition spec_score :: "nat \<Rightarrow> nat \<Rightarrow> int" where
  "spec_score passedCount totalCount =
     (if 0 < totalCount then round (100 * of_nat passedCount / of_nat totalCount :: rat) else 0)"

text \<open>
  A results object with \<open>totalCount\<close> suites \<open>suite0\<close>, \<open>suite1\<close>, ... of which the first
  \<open>passedCount\<close> have passed and the others have failed.
\<close>

definition many_results :: "nat \<Rightarrow> nat \<Rightarrow> results" where
  "many_results passedCount totalCount =
     map (\<lambda>i. (''suite'' @ decimal i,
               \<lparr>status = (if i < passedCount then PASSED else FAILED), description = ''generated'',
                error = None, details = None\<rparr>))
       [0..<totalCount]"

section \<open>Properties of the threshold evaluation\<close>

lemma allPassed_iff: "allPassed T scores \<longleftrightarrow> (\<forall>entry \<in> set scores. categoryPassed T entry)"
  by (simp add: allPassed_def list_all_iff)

text \<open>
  Claim C1. For a category \<open>c\<close> of the score set that the threshold configuration also
  has, the evaluation of \<open>c\<close> is true exactly when the score is at least the threshold;
  the verdict over the whole score set is the conjunction of the verdicts of its
  categories, and it is what the audit returns once the tool has produced scores.
\<close>

theorem threshold_evaluation:
  assumes "(c, s) \<in> set scores" and "T c = Some t"
  shows "(categoryPassed T (c, s) \<longleftrightarrow> t \<le> s)
       \<and> (allPassed T scores \<longleftrightarrow> (\<forall>entry \<in> set scores. categoryPassed T entry))
       \<and> runLighthouseAudit T \<lparr>serverAccessible = True, toolResult = Inr scores\<rparr>
           = Returns (\<forall>entry \<in> set scores. categoryPassed T entry)"
proof (intro conjI)
  show "categoryPassed T (c, s) \<longleftrightarrow> t \<le> s"
    using assms(2) by (simp add: categoryPassed_def)
  show "allPassed T scores \<longleftrightarrow> (\<forall>entry \<in> set scores. categoryPassed T entry)"
    by (rule allPassed_iff)
  show "runLighthouseAudit T \<lparr>serverAccessible = True, toolResult = Inr scores\<rparr>
          = Returns (\<forall>entry \<in> set scores. categoryPassed T entry)"
    by (simp add: runLighthouseAudit_def allPassed_iff)
qed

theorem threshold_evaluation_witness:
  "\<not> categoryPassed CONFIG_thresholds (''performance'', 89)
   \<and> \<not> allPassed CONFIG_thresholds [(''performance'', 89), (''seo'', 96)]
   \<and> runLighthouseAudit CONFIG_thresholds
        \<lparr>serverAccessible = True, toolResult = Inr [(''performance'', 89), (''seo'', 96)]\<rparr>
       = Returns False"
proof -
  have perf: "(''performance'', 89) \<in> set [(''performance'', 89), (''seo'', 96::int)]" by simp
  have t_perf: "CONFIG_thresholds ''performance'' = Some 90" by (simp add: CONFIG_thresholds_def)
  show ?thesis
    using threshold_evaluation
      [of "''performance''" 89 "[(''performance'', 89), (''seo'', 96)]" CONFIG_thresholds 90,
       OF perf t_perf]
    by auto
qed

text \<open>
  Claim C5, as the specification states it, fails: a category that the threshold
  configuration lacks is compared with \<^verbatim>\<open>undefined\<close>, the comparison is false, and
  the audit fails although every configured threshold is met.
\<close>

theorem absent_threshold_counterexample:
  "CONFIG_thresholds ''pwa'' = None
   \<and> allPassed CONFIG_thresholds [(''performance'', 100)]
   \<and> \<not> allPassed CONFIG_thresholds [(''performance'', 100), (''pwa'', 100)]
   \<and> runLighthouseAudit CONFIG_thresholds
        \<lparr>serverAccessible = True, toolResult = Inr [(''performance'', 100), (''pwa'', 100)]\<rparr>
       = Returns False"
  by (simp add: CONFIG_thresholds_def allPassed_def categoryPassed_def runLighthouseAudit_def)

text \<open>
  Claim C5, amended. A category of the score set that is absent from the threshold
  configuration fails its comparison whatever its score, and so the verdict over the
  score set, and the result of the audit, is false.
\<close>

theorem absent_threshold_fails:
  assumes "(c, s) \<in> set scores" and "T c = None"
  shows "\<not> categoryPassed T (c, s)
       \<and> \<not> allPassed T scores
       \<and> runLighthouseAudit T \<lparr>serverAccessible = True, toolResult = Inr scores\<rparr>
           = Returns False"
proof -
  have no: "\<not> categoryPassed T (c, s)"
    using assms(2) by (simp add: categoryPassed_def)
  have all: "\<not> allPassed T scores"
    using assms(1) no by (auto simp: allPassed_iff)
  show ?thesis
    using no all by (simp add: runLighthouseAudit_def)
qed

theorem absent_threshold_fails_witness:
  "\<not> categoryPassed CONFIG_thresholds (''pwa'', 100)
   \<and> \<not> allPassed CONFIG_thresholds [(''seo'', 100), (''pwa'', 100)]
   \<and> runLighthouseAudit CONFIG_thresholds
        \<lparr>serverAccessible = True, toolResult = Inr [(''seo'', 100), (''pwa'', 100)]\<rparr>
       = Returns False"
proof -
  have m: "(''pwa'', 100) \<in> set [(''seo'', 100), (''pwa'', 100::int)]" by simp
  have n: "CONFIG_thresholds ''pwa'' = None" by (simp add: CONFIG_thresholds_def)
  show ?thesis
    using absent_threshold_fails
      [of "''pwa''" 100 "[(''seo'', 100), (''pwa'', 100)]" CONFIG_thresholds, OF m n]
    by simp
qed

section \<open>The minifiers never lengthen their input\<close>

lemma high_not_low: "is_high_surrogate c \<Longrightarrow> \<not> is_low_surrogate c"
  by (auto simp: is_high_surrogate_def is_low_surrogate_def word_le_nat_alt)

lemma high_big: "is_high_surrogate c \<Longrightarrow> \<not> c < 0x800"
  by (auto simp: is_high_surrogate_def word_le_nat_alt word_less_nat_alt)

lemma low_big: "is_low_surrogate c \<Longrightarrow> \<not> c < 0x800"
  by (auto simp: is_low_surrogate_def word_le_nat_alt word_less_nat_alt)

lemma low_not_high: "is_low_surrogate c \<Longrightarrow> \<not> is_high_surrogate c"
  using high_not_low by blast

lemma high_big': "is_high_surrogate c \<Longrightarrow> \<not> c < 0x80"
  by (auto simp: is_high_surrogate_def word_le_nat_alt word_less_nat_alt)

lemma low_big': "is_low_surrogate c \<Longrightarrow> \<not> c < 0x80"
  by (auto simp: is_low_surrogate_def word_le_nat_alt word_less_nat_alt)

lemma ulen_flag: "\<not> is_low_surrogate c \<Longrightarrow> ulen h (c # cs) = ulen False (c # cs)"
  by simp

lemma byteLength_ulen: "byteLength s = ulen False s"
  by (induction s rule: byteLength.induct) (auto simp: high_not_low low_not_high high_big low_big high_big' low_big')

lemma ulen_True_le: "ulen True s \<le> ulen False s"
  by (cases s) auto

lemma ulen_False_le: "ulen False s \<le> ulen True s + 2"
  by (cases s) (auto dest: low_big)

lemma ulen_any: "ulen h s \<le> ulen h' s + 2"
  by (cases h; cases h') (use ulen_True_le [of s] ulen_False_le [of s] in auto)

lemma remove_block_comments_length: "length (remove_block_comments s) \<le> length s"
proof (induction s rule: remove_block_comments.induct)
  case (1 a b cs)
  show ?case
  proof (cases "a = 0x2F \<and> b = 0x2A")
    case True
    show ?thesis
    proof (cases "after_comment_end cs")
      case None
      with 1(1) [OF True None] True show ?thesis by simp
    next
      case (Some rest)
      have "length rest < length cs" using Some by (rule after_comment_end_length)
      with 1(2) [OF True Some] True Some show ?thesis by simp
    qed
  next
    case False
    with 1(3) [OF False] show ?thesis by auto
  qed
qed simp_all

lemma collapse_whitespace_length: "length (collapse_whitespace s) \<le> length s"
proof (induction s rule: collapse_whitespace.induct)
  case 1
  show ?case by simp
next
  case (2 c cs)
  show ?case
  proof (cases "is_space c")
    case True
    have "length (dropWhile is_space cs) \<le> length cs" by (rule length_dropWhile_le)
    with 2 True show ?thesis by simp
  next
    case False
    with 2 show ?thesis by simp
  qed
qed

lemma strip_around_length: "length (strip_around P s) \<le> length s"
proof (induction P s rule: strip_around.induct)
  case (1 P)
  show ?case by simp
next
  case (2 P c cs)
  show ?case
  proof (cases "dropWhile is_space (c # cs)")
    case Nil
    with 2 show ?thesis by simp
  next
    case (Cons p rest)
    show ?thesis
    proof (cases "P p")
      case True
      have "length (dropWhile is_space rest) < length (c # cs)"
        using Cons by (rule length_after_dropWhile)
      moreover have "length (strip_around P (dropWhile is_space rest)) \<le> length (dropWhile is_space rest)"
        using 2(2) [OF Cons True] .
      ultimately show ?thesis using Cons True by simp
    next
      case False
      with 2(3) [OF Cons False] Cons show ?thesis by simp
    qed
  qed
qed

lemma drop_last_semicolons_length: "length (drop_last_semicolons s) \<le> length s"
  by (induction s rule: drop_last_semicolons.induct) auto

lemma trim_length: "length (trim s) \<le> length s"
proof -
  have "length (trim s) \<le> length (dropWhile is_space s)"
    unfolding trim_def using length_dropWhile_le [of is_space "rev (dropWhile is_space s)"] by simp
  also have "\<dots> \<le> length s" by (rule length_dropWhile_le)
  finally show ?thesis .
qed

lemma remove_line_comments_length: "length (remove_line_comments s) \<le> length s"
proof (induction s rule: remove_line_comments.induct)
  case (1 a b cs)
  show ?case
  proof (cases "a = 0x2F \<and> b = 0x2F \<and> \<not> list_ex is_quote (takeWhile (\<lambda>c. c \<noteq> 0x0A) cs)")
    case True
    have "length (dropWhile (\<lambda>c. \<not> is_line_terminator c) cs) \<le> length cs"
      by (rule length_dropWhile_le)
    with 1(1) [OF True] True show ?thesis by simp
  next
    case False
    with 1(2) [OF False] show ?thesis by auto
  qed
qed simp_all

lemma minifyCSS_length: "length (minifyCSS s) \<le> length s"
  unfolding minifyCSS_def
  by (meson trim_length drop_last_semicolons_length strip_around_length
        collapse_whitespace_length remove_block_comments_length order_trans)

lemma minifyJS_length: "length (minifyJS s) \<le> length s"
  unfolding minifyJS_def
  by (meson trim_length drop_last_semicolons_length strip_around_length
        collapse_whitespace_length remove_block_comments_length remove_line_comments_length order_trans)


lemma space_not_high: "is_space c \<Longrightarrow> \<not> is_high_surrogate c"
  unfolding is_space_def is_high_surrogate_def
  by (auto simp: word_le_nat_alt)

lemma ascii_not_surrogate:
  "c < 0x80 \<Longrightarrow> \<not> is_high_surrogate c \<and> \<not> is_low_surrogate c"
  using high_big' low_big' by blast

lemma unit_bytes_pos: "1 \<le> (if h \<and> is_low_surrogate c then 1 else unit_bytes c)"
  by simp

lemma ulen_prefix: "ulen h ys \<le> ulen h (ys @ zs)"
  by (induction ys arbitrary: h) auto

lemma ulen_dropWhile_space: "ulen False (dropWhile is_space cs) \<le> ulen False cs"
proof (induction cs)
  case Nil
  show ?case by simp
next
  case (Cons c cs)
  show ?case
  proof (cases "is_space c")
    case True
    then have "ulen False (c # cs) = unit_bytes c + ulen False cs"
      by (simp add: space_not_high)
    with Cons True show ?thesis by simp
  next
    case False
    then show ?thesis by simp
  qed
qed

lemma ulen_space_Cons:
  assumes "is_space c"
  shows "1 + ulen False (dropWhile is_space cs) \<le> ulen h (c # cs)"
proof -
  have "1 + ulen False cs \<le> ulen h (c # cs)"
    using assms by (simp add: space_not_high)
  with ulen_dropWhile_space [of cs] show ?thesis by linarith
qed

lemma ulen_dropWhile_any: "ulen g' (dropWhile Q cs) \<le> ulen g cs + 2"
proof (induction cs arbitrary: g)
  case Nil
  show ?case by simp
next
  case (Cons c cs)
  show ?case
  proof (cases "Q c")
    case True
    have "ulen g' (dropWhile Q cs) \<le> ulen (is_high_surrogate c) cs + 2" by (rule Cons.IH)
    with True show ?thesis by simp
  next
    case False
    with ulen_any [of g' "c # cs" g] show ?thesis by simp
  qed
qed

lemma after_comment_end_ulen:
  "after_comment_end cs = Some rest \<Longrightarrow> ulen False rest + 2 \<le> ulen g cs"
proof (induction cs arbitrary: g rule: after_comment_end.induct)
  case (1 a b cs)
  show ?case
  proof (cases "a = 0x2A \<and> b = 0x2F")
    case True
    with 1(2) have "rest = cs" by simp
    with True show ?thesis by (simp add: is_high_surrogate_def is_low_surrogate_def)
  next
    case False
    with 1(2) have "after_comment_end (b # cs) = Some rest" by auto
    from 1(1) [OF False this] have "ulen False rest + 2 \<le> ulen (is_high_surrogate a) (b # cs)" .
    then show ?thesis by simp
  qed
qed simp_all

lemma ulen_le_False: "ulen h s \<le> ulen False s"
  using ulen_True_le [of s] by (cases h) auto

lemma remove_block_comments_bytes: "ulen h (remove_block_comments s) \<le> ulen h s"
proof (induction s arbitrary: h rule: remove_block_comments.induct)
  case (1 a b cs)
  show ?case
  proof (cases "a = 0x2F \<and> b = 0x2A")
    case True
    show ?thesis
    proof (cases "after_comment_end cs")
      case None
      with 1(1) [OF True None, of "is_high_surrogate a"] True show ?thesis by simp
    next
      case (Some rest)
      have "ulen h (remove_block_comments rest) \<le> ulen h rest" using 1(2) [OF True Some] .
      also have "\<dots> \<le> ulen False rest" by (rule ulen_le_False)
      also have "\<dots> \<le> ulen (is_high_surrogate b) cs" using after_comment_end_ulen [OF Some, of "is_high_surrogate b"] by linarith
      also have "\<dots> \<le> ulen h (a # b # cs)" by simp
      finally show ?thesis using True Some by simp
    qed
  next
    case False
    with 1(3) [OF False, of "is_high_surrogate a"] show ?thesis by auto
  qed
qed simp_all

lemma collapse_whitespace_bytes: "ulen h (collapse_whitespace s) \<le> ulen h s"
proof (induction s arbitrary: h rule: collapse_whitespace.induct)
  case 1
  show ?case by simp
next
  case (2 c cs)
  show ?case
  proof (cases "is_space c")
    case True
    have "ulen h (collapse_whitespace (c # cs))
            = 1 + ulen False (collapse_whitespace (dropWhile is_space cs))"
      using True by (simp add: is_high_surrogate_def is_low_surrogate_def)
    also have "\<dots> \<le> 1 + ulen False (dropWhile is_space cs)"
      using 2(1) [OF True, of False] by simp
    also have "\<dots> \<le> ulen h (c # cs)" using True by (rule ulen_space_Cons)
    finally show ?thesis .
  next
    case False
    with 2(2) [OF False, of "is_high_surrogate c"] show ?thesis by simp
  qed
qed

lemma strip_around_bytes:
  assumes ascii: "\<And>c. P c \<Longrightarrow> c < 0x80"
  shows "ulen h (strip_around P s) \<le> ulen h s"
  using ascii
proof (induction P s arbitrary: h rule: strip_around.induct)
  case (1 P)
  show ?case by simp
next
  case (2 P c cs)
  note ascii = 2(4)
  show ?case
  proof (cases "dropWhile is_space (c # cs)")
    case Nil
    with 2(1) [OF Nil ascii, of "is_high_surrogate c"] show ?thesis by simp
  next
    case (Cons p rest)
    show ?thesis
    proof (cases "P p")
      case True
      then have p: "p < 0x80" by (rule ascii)
      have "ulen h (strip_around P (c # cs))
              = 1 + ulen False (strip_around P (dropWhile is_space rest))"
        using Cons True p ascii_not_surrogate [OF p] by simp
      also have "\<dots> \<le> 1 + ulen False (dropWhile is_space rest)"
        using 2(2) [OF Cons True ascii, of False] by simp
      also have "\<dots> \<le> 1 + ulen False rest"
        using ulen_dropWhile_space [of rest] by simp
      also have "\<dots> \<le> ulen h (c # cs)"
      proof (cases "is_space c")
        case True
        then have "dropWhile is_space cs = p # rest" using Cons by simp
        with ulen_space_Cons [OF True, of cs h] p ascii_not_surrogate [OF p]
        show ?thesis by simp
      next
        case False
        then have "c = p" "cs = rest" using Cons by simp_all
        with p ascii_not_surrogate [OF p] show ?thesis by simp
      qed
      finally show ?thesis .
    next
      case False
      with 2(3) [OF Cons False ascii, of "is_high_surrogate c"] Cons show ?thesis by simp
    qed
  qed
qed

lemma drop_last_semicolons_bytes: "ulen h (drop_last_semicolons s) \<le> ulen h s"
proof (induction s arbitrary: h rule: drop_last_semicolons.induct)
  case (1 a b cs)
  show ?case
  proof (cases "a = 0x3B \<and> b = 0x7D")
    case True
    with 1(1) [OF True, of False] show ?thesis
      by (simp add: is_high_surrogate_def is_low_surrogate_def)
  next
    case False
    with 1(2) [OF False, of "is_high_surrogate a"] show ?thesis by auto
  qed
qed simp_all

lemma remove_line_comments_bytes: "ulen h (remove_line_comments s) \<le> ulen h s"
proof (induction s arbitrary: h rule: remove_line_comments.induct)
  case (1 a b cs)
  show ?case
  proof (cases "a = 0x2F \<and> b = 0x2F \<and> \<not> list_ex is_quote (takeWhile (\<lambda>c. c \<noteq> 0x0A) cs)")
    case True
    have "ulen h (remove_line_comments (dropWhile (\<lambda>c. \<not> is_line_terminator c) cs))
            \<le> ulen h (dropWhile (\<lambda>c. \<not> is_line_terminator c) cs)"
      using 1(1) [OF True] .
    also have "\<dots> \<le> ulen False cs + 2" by (rule ulen_dropWhile_any)
    also have "\<dots> = ulen h (a # b # cs)"
      using True by (simp add: is_high_surrogate_def is_low_surrogate_def)
    finally show ?thesis using True by simp
  next
    case False
    with 1(2) [OF False, of "is_high_surrogate a"] show ?thesis by auto
  qed
qed simp_all

lemma trim_bytes: "ulen False (trim s) \<le> ulen False s"
proof -
  let ?t = "dropWhile is_space s"
  have "?t = trim s @ rev (takeWhile is_space (rev ?t))"
    unfolding trim_def
    using takeWhile_dropWhile_id [of is_space "rev ?t"]
    by (metis rev_append rev_rev_ident)
  then have "ulen False (trim s) \<le> ulen False ?t"
    using ulen_prefix [of False "trim s" "rev (takeWhile is_space (rev ?t))"] by simp
  also have "\<dots> \<le> ulen False s" by (rule ulen_dropWhile_space)
  finally show ?thesis .
qed

lemma css_punctuation_ascii: "css_punctuation c \<Longrightarrow> c < 0x80"
  unfolding css_punctuation_def by auto

lemma js_punctuation_ascii: "js_punctuation c \<Longrightarrow> c < 0x80"
  unfolding js_punctuation_def by auto

lemma minifyCSS_bytes: "byteLength (minifyCSS s) \<le> byteLength s"
proof -
  have "ulen False (minifyCSS s)
          \<le> ulen False (drop_last_semicolons (strip_around css_punctuation
               (collapse_whitespace (remove_block_comments s))))"
    unfolding minifyCSS_def by (rule trim_bytes)
  also have "\<dots> \<le> ulen False (strip_around css_punctuation
               (collapse_whitespace (remove_block_comments s)))"
    by (rule drop_last_semicolons_bytes)
  also have "\<dots> \<le> ulen False (collapse_whitespace (remove_block_comments s))"
    by (rule strip_around_bytes) (rule css_punctuation_ascii)
  also have "\<dots> \<le> ulen False (remove_block_comments s)"
    by (rule collapse_whitespace_bytes)
  also have "\<dots> \<le> ulen False s"
    by (rule remove_block_comments_bytes)
  finally show ?thesis by (simp add: byteLength_ulen)
qed

lemma minifyJS_bytes: "byteLength (minifyJS s) \<le> byteLength s"
proof -
  have "ulen False (minifyJS s)
          \<le> ulen False (drop_last_semicolons (strip_around js_punctuation
               (collapse_whitespace (remove_block_comments (remove_line_comments s)))))"
    unfolding minifyJS_def by (rule trim_bytes)
  also have "\<dots> \<le> ulen False (strip_around js_punctuation
               (collapse_whitespace (remove_block_comments (remove_line_comments s))))"
    by (rule drop_last_semicolons_bytes)
  also have "\<dots> \<le> ulen False (collapse_whitespace (remove_block_comments (remove_line_comments s)))"
    by (rule strip_around_bytes) (rule js_punctuation_ascii)
  also have "\<dots> \<le> ulen False (remove_block_comments (remove_line_comments s))"
    by (rule collapse_whitespace_bytes)
  also have "\<dots> \<le> ulen False (remove_line_comments s)"
    by (rule remove_block_comments_bytes)
  also have "\<dots> \<le> ulen False s"
    by (rule remove_line_comments_bytes)
  finally show ?thesis by (simp add: byteLength_ulen)
qed

lemma minifyCSS_example:
  "minifyCSS [0x61, 0x20, 0x7B, 0x20, 0x2F, 0x2A, 0x78, 0x2A, 0x2F, 0x20, 0x62, 0x3A, 0x20,
              0x63, 0x3B, 0x20, 0x7D, 0x0A]
   = [0x61, 0x7B, 0x62, 0x3A, 0x63, 0x7D]"
  by (simp add: minifyCSS_def trim_def is_space_def css_punctuation_def)

text \<open>
  Claim C10. For every string, the output of \<^verbatim>\<open>minifyCSS\<close> and of \<^verbatim>\<open>minifyJS\<close> is no
  longer than the input, in UTF-16 code units (\<^verbatim>\<open>length\<close>) and in UTF-8 bytes
  (\<^verbatim>\<open>Buffer.byteLength\<close>, from which the build reports the size reduction).
\<close>

theorem minify_never_longer:
  "length (minifyCSS s) \<le> length s \<and> length (minifyJS s) \<le> length s
   \<and> byteLength (minifyCSS s) \<le> byteLength s \<and> byteLength (minifyJS s) \<le> byteLength s"
proof (intro conjI)
  show "length (minifyCSS s) \<le> length s" by (rule minifyCSS_length)
  show "length (minifyJS s) \<le> length s" by (rule minifyJS_length)
  show "byteLength (minifyCSS s) \<le> byteLength s" by (rule minifyCSS_bytes)
  show "byteLength (minifyJS s) \<le> byteLength s" by (rule minifyJS_bytes)
qed

section \<open>The results object and the runner\<close>

lemma key_in_keys: "(k, b) \<in> set rs \<Longrightarrow> k \<in> fst ` set rs"
  by force

lemma map_fst_replace_value:
  "map fst (replace_value k v rs) = map fst rs"
  by (induction rs) auto

lemma keys_replace_value: "fst ` set (replace_value k v rs) = fst ` set rs"
proof -
  have "set (map fst (replace_value k v rs)) = set (map fst rs)"
    by (simp only: map_fst_replace_value)
  then show ?thesis by simp
qed

lemma length_replace_value: "length (replace_value k v rs) = length rs"
proof -
  have "length (map fst (replace_value k v rs)) = length (map fst rs)"
    by (simp only: map_fst_replace_value)
  then show ?thesis by simp
qed

lemma map_of_replace_value:
  "k \<in> fst ` set rs \<Longrightarrow> map_of (replace_value k v rs) = (map_of rs)(k \<mapsto> v)"
proof (induction rs)
  case Nil
  then show ?case by simp
next
  case (Cons r rs)
  obtain k' v' where r: "r = (k', v')" by (cases r)
  show ?case
  proof (cases "k' = k")
    case True
    then show ?thesis by (simp add: r fun_eq_iff)
  next
    case False
    with Cons.prems have "k \<in> fst ` set rs" by (simp add: r)
    from Cons.IH [OF this] False show ?thesis by (simp add: r fun_eq_iff)
  qed
qed

lemma keys_insert_index: "fst ` set (insert_index k v rs) = insert k (fst ` set rs)"
proof (induction rs)
  case Nil
  show ?case by simp
next
  case (Cons r rs)
  obtain k' v' where r: "r = (k', v')" by (cases r)
  show ?case
  proof (cases "is_array_index k' \<and> index_value k' < index_value k")
    case True
    with Cons.IH show ?thesis by (simp add: r insert_commute)
  next
    case False
    then show ?thesis by (auto simp: r)
  qed
qed

lemma length_insert_index: "length (insert_index k v rs) = Suc (length rs)"
  by (induction rs) auto

lemma distinct_insert_index:
  "k \<notin> fst ` set rs \<Longrightarrow> distinct (map fst rs) \<Longrightarrow> distinct (map fst (insert_index k v rs))"
proof (induction rs)
  case Nil
  show ?case by simp
next
  case (Cons r rs)
  obtain k' v' where r: "r = (k', v')" by (cases r)
  from Cons.prems have k: "k \<noteq> k'" "k \<notin> fst ` set rs" and d: "k' \<notin> fst ` set rs" "distinct (map fst rs)"
    by (auto simp: r)
  show ?case
  proof (cases "is_array_index k' \<and> index_value k' < index_value k")
    case True
    have "k' \<notin> fst ` set (insert_index k v rs)" using k(1) d(1) by (simp add: keys_insert_index)
    with True Cons.IH [OF k(2) d(2)] show ?thesis by (simp add: r)
  next
    case False
    with k d show ?thesis by (auto simp: r)
  qed
qed

lemma map_of_insert_index:
  "k \<notin> fst ` set rs \<Longrightarrow> map_of (insert_index k v rs) = (map_of rs)(k \<mapsto> v)"
proof (induction rs)
  case Nil
  show ?case by simp
next
  case (Cons r rs)
  obtain k' v' where r: "r = (k', v')" by (cases r)
  from Cons.prems have k: "k \<noteq> k'" "k \<notin> fst ` set rs" by (auto simp: r)
  show ?case
  proof (cases "is_array_index k' \<and> index_value k' < index_value k")
    case True
    with Cons.IH [OF k(2)] k(1) show ?thesis by (simp add: r fun_eq_iff)
  next
    case False
    then show ?thesis by (auto simp: r fun_eq_iff)
  qed
qed

lemma map_of_append_new:
  "k \<notin> fst ` set rs \<Longrightarrow> map_of (rs @ [(k, v)]) = (map_of rs)(k \<mapsto> v)"
proof -
  assume "k \<notin> fst ` set rs"
  then have "map_of rs k = None" by (simp add: map_of_eq_None_iff)
  then show ?thesis by (auto simp: fun_eq_iff map_add_def split: option.splits)
qed

lemma assign_present:
  "k \<in> fst ` set rs \<Longrightarrow> assign k v rs = replace_value k v rs"
  by (simp add: assign_def)

lemma assign_proto:
  "proto_name \<notin> fst ` set rs \<Longrightarrow> assign proto_name v rs = rs"
  by (simp add: assign_def)

lemma assign_index:
  "k \<notin> fst ` set rs \<Longrightarrow> k \<noteq> proto_name \<Longrightarrow> is_array_index k \<Longrightarrow>
   assign k v rs = insert_index k v rs"
  by (simp add: assign_def)

lemma assign_ordinary:
  "k \<notin> fst ` set rs \<Longrightarrow> k \<noteq> proto_name \<Longrightarrow> \<not> is_array_index k \<Longrightarrow>
   assign k v rs = rs @ [(k, v)]"
  by (simp add: assign_def)

lemma assign_cases:
  obtains (present) "k \<in> fst ` set rs" "assign k v rs = replace_value k v rs"
  | (proto) "k \<notin> fst ` set rs" "k = proto_name" "assign k v rs = rs"
  | (index) "k \<notin> fst ` set rs" "k \<noteq> proto_name" "assign k v rs = insert_index k v rs"
  | (ordinary) "k \<notin> fst ` set rs" "k \<noteq> proto_name" "assign k v rs = rs @ [(k, v)]"
proof (cases "k \<in> fst ` set rs")
  case True
  show ?thesis using True assign_present [OF True] by (rule present)
next
  case absent: False
  show ?thesis
  proof (cases "k = proto_name")
    case True
    have "assign k v rs = rs" using absent unfolding True by (rule assign_proto)
    with absent True show ?thesis by (rule proto)
  next
    case False
    show ?thesis
    proof (cases "is_array_index k")
      case True
      show ?thesis using absent False assign_index [OF absent False True] by (rule index)
    next
      case no: False
      show ?thesis using absent False assign_ordinary [OF absent False no] by (rule ordinary)
    qed
  qed
qed

lemma keys_assign:
  "fst ` set (assign k v rs) =
     (if k \<in> fst ` set rs \<or> k \<noteq> proto_name then insert k (fst ` set rs) else fst ` set rs)"
proof (cases k v rs rule: assign_cases)
  case present
  then show ?thesis by (simp add: keys_replace_value insert_absorb)
next
  case proto
  then show ?thesis by simp
next
  case index
  then show ?thesis by (simp add: keys_insert_index)
next
  case ordinary
  then show ?thesis by simp
qed

lemma distinct_assign: "distinct (map fst rs) \<Longrightarrow> distinct (map fst (assign k v rs))"
proof (cases k v rs rule: assign_cases)
  case present
  assume "distinct (map fst rs)"
  with present show ?thesis by (simp add: map_fst_replace_value)
next
  case proto
  assume "distinct (map fst rs)"
  with proto show ?thesis by simp
next
  case index
  assume "distinct (map fst rs)"
  with index show ?thesis by (simp add: distinct_insert_index)
next
  case ordinary
  assume "distinct (map fst rs)"
  with ordinary show ?thesis by simp
qed

lemma map_of_assign:
  "k \<in> fst ` set rs \<or> k \<noteq> proto_name \<Longrightarrow> map_of (assign k v rs) = (map_of rs)(k \<mapsto> v)"
proof (cases k v rs rule: assign_cases)
  case present
  then show ?thesis by (simp add: map_of_replace_value)
next
  case proto
  assume "k \<in> fst ` set rs \<or> k \<noteq> proto_name"
  with proto show ?thesis by simp
next
  case index
  then show ?thesis by (simp add: map_of_insert_index)
next
  case ordinary
  from map_of_append_new [OF ordinary(1), of v] ordinary(3) show ?thesis by (simp only:)
qed

lemma length_assign:
  "length (assign k v rs) =
     (if k \<in> fst ` set rs \<or> k = proto_name then length rs else Suc (length rs))"
proof (cases k v rs rule: assign_cases)
  case present
  then show ?thesis by (simp add: length_replace_value)
next
  case proto
  then show ?thesis by simp
next
  case index
  then show ?thesis by (simp add: length_insert_index)
next
  case ordinary
  then show ?thesis by simp
qed



lemma record_all_keys:
  "distinct (map fst rs) \<Longrightarrow>
   distinct (map fst (record_all writes rs))
   \<and> fst ` set (record_all writes rs) - {proto_name}
       = (fst ` set rs \<union> fst ` set writes) - {proto_name}
   \<and> (proto_name \<notin> fst ` set rs \<longrightarrow> proto_name \<notin> fst ` set (record_all writes rs))"
  unfolding record_all_def
proof (induction writes arbitrary: rs)
  case Nil
  then show ?case by simp
next
  case (Cons w writes)
  let ?rs = "assign (fst w) (snd w) rs"
  from Cons.prems have "distinct (map fst ?rs)" by (rule distinct_assign)
  note ih = Cons.IH [OF this]
  have k: "fst ` set ?rs - {proto_name} = insert (fst w) (fst ` set rs) - {proto_name}"
    unfolding keys_assign by auto
  have p: "proto_name \<notin> fst ` set rs \<longrightarrow> proto_name \<notin> fst ` set ?rs"
    unfolding keys_assign by (auto dest: key_in_keys)
  have "fst ` set (foldl (\<lambda>acc w. assign (fst w) (snd w) acc) ?rs writes) - {proto_name}
          = (fst ` set ?rs - {proto_name}) \<union> (fst ` set writes - {proto_name})"
    using ih by blast
  also have "\<dots> = (fst ` set rs \<union> fst ` set (w # writes)) - {proto_name}"
    unfolding k by auto
  finally show ?case using ih p by simp
qed

lemma record_all_map_of:
  "proto_name \<notin> fst ` set rs \<Longrightarrow> k \<noteq> proto_name \<Longrightarrow>
   map_of (record_all writes rs) k = map_of (rev writes @ rs) k"
  unfolding record_all_def
proof (induction writes arbitrary: rs)
  case Nil
  show ?case by simp
next
  case (Cons w writes)
  let ?rs = "assign (fst w) (snd w) rs"
  have p: "proto_name \<notin> fst ` set ?rs"
    using Cons.prems(1) unfolding keys_assign by (auto dest: key_in_keys)
  from Cons.IH [OF p Cons.prems(2)]
  have ih: "map_of (foldl (\<lambda>acc w. assign (fst w) (snd w) acc) ?rs writes) k
              = map_of (rev writes @ ?rs) k" .
  have "map_of ?rs k = map_of (w # rs) k"
  proof (cases "fst w = proto_name")
    case True
    then have "?rs = rs" using Cons.prems(1) by (simp add: assign_proto)
    with True Cons.prems(2) show ?thesis by (cases w) auto
  next
    case False
    then have "map_of ?rs = (map_of rs)(fst w \<mapsto> snd w)" by (simp add: map_of_assign)
    then show ?thesis by (cases w) auto
  qed
  then have "map_of (rev writes @ ?rs) k = map_of (rev writes @ w # rs) k"
    by (cases w) (simp add: map_add_def split: option.splits)
  with ih show ?case by simp
qed

lemma runner_names:
  "\<not> is_array_index ''lighthouseAudit''" "\<not> is_array_index ''browserTests''"
  "\<not> is_array_index ''deploymentVerification''"
  by (simp_all add: is_array_index_def is_digit_def)

lemma runner_names_not_proto:
  "''lighthouseAudit'' \<noteq> proto_name" "''browserTests'' \<noteq> proto_name"
  "''deploymentVerification'' \<noteq> proto_name"
  by (simp_all add: proto_name_def)

lemma index_examples:
  "is_array_index ''9''" "is_array_index ''10''" "\<not> is_array_index ''x''" "\<not> is_array_index ''007''"
  "index_value ''9'' = 9" "index_value ''10'' = 10"
  by (simp_all add: is_array_index_def is_digit_def index_value_def digit_value_def)

lemma assign_order_example:
  "assign ''10'' c (assign ''9'' b (assign ''x'' a (assign proto_name z [])))
     = [(''9'', b), (''10'', c), (''x'', a)]"
  by (simp add: assign_def index_examples proto_name_def)

lemmas assign_runner = assign_ordinary runner_names runner_names_not_proto

lemma count_status_total:
  "count_status PASSED rs + count_status FAILED rs + count_status SKIPPED rs = length rs"
  unfolding count_status_def
proof (induction rs)
  case Nil
  show ?case by simp
next
  case (Cons r rs)
  then show ?case by (cases "status (snd r)") simp_all
qed


lemmas runner_defs =
  runSuites_def lighthouseStep_def browserStep_def deploymentStep_def awaitSuite_def

lemma truncate_fields [simp]:
  "writeJson (report_env.truncate env) = writeJson env"
  "writeHtml (report_env.truncate env) = writeHtml env"
  "now (report_env.truncate env) = now env"
  "process (report_env.truncate env) = process env"
  "toLocaleString (report_env.truncate env) = toLocaleString env"
  by (simp_all add: report_env.truncate_def)

lemma run_ending:
  "ending (runIntegrationTests cfg env) =
     (if exited (runSuites cfg env) then Exits
      else case writeJson env of
             Some message \<Rightarrow> Throws message
           | None \<Rightarrow>
               (case writeHtml env of
                  Some message \<Rightarrow> Throws message
                | None \<Rightarrow>
                    Returns (build_report (report_env.truncate env) (recorded (runSuites cfg env)),
                             count_status FAILED (recorded (runSuites cfg env)) = 0)))"
  by (simp add: runIntegrationTests_def generateComprehensiveReport_def Let_def build_report_def
        summarize_def split: option.splits)

lemma run_final: "final (runIntegrationTests cfg env) = runSuites cfg env"
  by (simp add: runIntegrationTests_def Let_def split: prod.splits sum.splits)








lemma failed_zero_iff:
  "count_status FAILED rs = 0 \<longleftrightarrow> (\<forall>entry \<in> set rs. status (snd entry) \<noteq> FAILED)"
  by (auto simp: count_status_def filter_empty_conv)

text \<open>
  Claim C4, as the specification states it, fails. When \<^verbatim>\<open>fs.writeFileSync\<close> throws,
  \<^verbatim>\<open>runIntegrationTests\<close> rejects and the script exits with 1 (line 439), whatever the
  results: with every suite PASSED and the HTML file not writable, the summary, already
  written to the JSON file, has a failed count of zero, and the exit code is 1.
\<close>

theorem exit_code_counterexample:
  "map (status \<circ> snd) (recorded (final (runIntegrationTests CONFIG
         ((example_env True (Returns True) (Returns True) (Returns True))
            \<lparr>writeHtml := Some ''ENOSPC''\<rparr>))))
     = [PASSED, PASSED, PASSED]
   \<and> failed (summarize (recorded (final (runIntegrationTests CONFIG
         ((example_env True (Returns True) (Returns True) (Returns True))
            \<lparr>writeHtml := Some ''ENOSPC''\<rparr>))))) = 0
   \<and> map file_name (files (runIntegrationTests CONFIG
         ((example_env True (Returns True) (Returns True) (Returns True))
            \<lparr>writeHtml := Some ''ENOSPC''\<rparr>)))
       = [''integration-test-report-2025-01-01T00-00-00-000Z.json'']
   \<and> ending (runIntegrationTests CONFIG
         ((example_env True (Returns True) (Returns True) (Returns True))
            \<lparr>writeHtml := Some ''ENOSPC''\<rparr>)) = Throws ''ENOSPC''
   \<and> main CONFIG
         ((example_env True (Returns True) (Returns True) (Returns True))
            \<lparr>writeHtml := Some ''ENOSPC''\<rparr>) = 1"
proof -
  let ?env = "(example_env True (Returns True) (Returns True) (Returns True))
                \<lparr>writeHtml := Some ''ENOSPC''\<rparr>"
  let ?rs = "[(''lighthouseAudit'',
            \<lparr>status = PASSED, description = ''Lighthouse performance audit'', error = None,
             details = Some ''Performance, accessibility, SEO, and best practices validation''\<rparr>),
          (''browserTests'',
            \<lparr>status = PASSED, description = ''Cross-browser compatibility tests'', error = None,
             details = Some ''Responsive design, animations, and accessibility across browsers''\<rparr>),
          (''deploymentVerification'',
            \<lparr>status = PASSED, description = ''GitHub Pages deployment verification'',
             error = None,
             details = Some ''GitHub Actions, custom domain, HTTPS, and SEO validation''\<rparr>)]"
  have 1: "runSuites CONFIG ?env
      = \<lparr>recorded = ?rs, invoked = [Lighthouse, Browser, Deployment], exited = False\<rparr>"
    by (simp add: runner_defs Let_def CONFIG_def example_env_def assign_runner)
  have 2: "map file_name (files (runIntegrationTests CONFIG ?env))
      = [''integration-test-report-2025-01-01T00-00-00-000Z.json'']"
    unfolding runIntegrationTests_def Let_def 1
    by (simp add: generateComprehensiveReport_def Let_def example_env_def build_report_def
          file_stamp_def)
  have 3: "ending (runIntegrationTests CONFIG ?env) = Throws ''ENOSPC''"
    unfolding runIntegrationTests_def Let_def 1
    by (simp add: generateComprehensiveReport_def Let_def example_env_def)
  have 4: "final (runIntegrationTests CONFIG ?env) = runSuites CONFIG ?env"
    by (rule run_final)
  show ?thesis
    unfolding 2 3 4 main_def 1
    by (simp add: summarize_def count_status_def)
qed

text \<open>
  Claim C4, amended. The exit code is 0 exactly when the run returns a report whose
  summary has a failed count of zero, and 1 in every other case, also when no report is
  returned because a suite has ended the process or a report file could not be written.
  For a run that returns a report, the failed count is zero exactly when no result has the
  status FAILED: results with the status SKIPPED have no influence.
\<close>

theorem exit_code_by_failed_count:
  "(main cfg env = 0 \<longleftrightarrow>
      (\<exists>rep. ending (runIntegrationTests cfg env) = Returns (rep, True)
             \<and> failed (summary rep) = 0))
   \<and> (main cfg env = 0 \<or> main cfg env = 1)
   \<and> (\<forall>rep success. ending (runIntegrationTests cfg env) = Returns (rep, success) \<longrightarrow>
         main cfg env = (if failed (summary rep) = 0 then 0 else 1)
         \<and> (failed (summary rep) = 0 \<longleftrightarrow>
              (\<forall>entry \<in> set (results rep). status (snd entry) \<noteq> FAILED)))"
proof (cases "ending (runIntegrationTests cfg env)")
  case (Returns pair)
  obtain rep success where pair: "pair = (rep, success)" by (cases pair)
  from Returns pair have
    "rep = build_report (report_env.truncate env) (recorded (runSuites cfg env))"
    "success \<longleftrightarrow> count_status FAILED (recorded (runSuites cfg env)) = 0"
    by (auto simp: run_ending split: if_splits option.splits)
  then have "failed (summary rep) = count_status FAILED (results rep)"
    and "success \<longleftrightarrow> failed (summary rep) = 0"
    by (simp_all add: build_report_def summarize_def)
  with Returns pair show ?thesis
    by (simp add: main_def failed_zero_iff)
next
  case (Throws message)
  then show ?thesis by (simp add: main_def)
next
  case Exits
  then show ?thesis by (simp add: main_def)
qed

theorem exit_code_by_failed_count_witness:
  "ending (runIntegrationTests CONFIG (example_env False Exits Exits (Returns True)))
     = Returns (build_report (report_env.truncate (example_env False Exits Exits (Returns True)))
                  [(''lighthouseAudit'', skipped_result ''Lighthouse performance audit''),
                   (''browserTests'', skipped_result ''Cross-browser compatibility tests''),
                   (''deploymentVerification'',
                      \<lparr>status = PASSED, description = ''GitHub Pages deployment verification'',
                       error = None,
                       details = Some ''GitHub Actions, custom domain, HTTPS, and SEO validation''\<rparr>)],
                True)
   \<and> main CONFIG (example_env False Exits Exits (Returns True)) = 0"
proof -
  let ?env = "example_env False Exits Exits (Returns True)"
  have e: "ending (runIntegrationTests CONFIG ?env)
     = Returns (build_report (report_env.truncate ?env)
                  [(''lighthouseAudit'', skipped_result ''Lighthouse performance audit''),
                   (''browserTests'', skipped_result ''Cross-browser compatibility tests''),
                   (''deploymentVerification'',
                      \<lparr>status = PASSED, description = ''GitHub Pages deployment verification'',
                       error = None,
                       details = Some ''GitHub Actions, custom domain, HTTPS, and SEO validation''\<rparr>)],
                True)"
    by (simp add: run_ending runner_defs Let_def example_env_def CONFIG_def count_status_def
          skipped_result_def assign_runner)
  have "failed (summary (build_report (report_env.truncate ?env)
                  [(''lighthouseAudit'', skipped_result ''Lighthouse performance audit''),
                   (''browserTests'', skipped_result ''Cross-browser compatibility tests''),
                   (''deploymentVerification'',
                      \<lparr>status = PASSED, description = ''GitHub Pages deployment verification'',
                       error = None,
                       details = Some ''GitHub Actions, custom domain, HTTPS, and SEO validation''\<rparr>)])) = 0"
    by (simp add: build_report_def summarize_def count_status_def skipped_result_def)
  with e exit_code_by_failed_count [of CONFIG ?env] show ?thesis by auto
qed

text \<open>
  Claim C7. When the local tests are configured and both server checks fail, the
  Lighthouse and the browser suite are recorded as SKIPPED with the error text
  \<open>Local server not accessible\<close>, and neither suite function is called.
\<close>

theorem server_down_skips:
  assumes "runLocal cfg" and "\<not> serverCheck1 env" and "\<not> serverCheck2 env"
  shows "map_of (recorded (final (runIntegrationTests cfg env))) ''lighthouseAudit''
           = Some \<lparr>status = SKIPPED, description = ''Lighthouse performance audit'',
                   error = Some ''Local server not accessible'', details = None\<rparr>
       \<and> map_of (recorded (final (runIntegrationTests cfg env))) ''browserTests''
           = Some \<lparr>status = SKIPPED, description = ''Cross-browser compatibility tests'',
                   error = Some ''Local server not accessible'', details = None\<rparr>
       \<and> Lighthouse \<notin> set (invoked (final (runIntegrationTests cfg env)))
       \<and> Browser \<notin> set (invoked (final (runIntegrationTests cfg env)))
       \<and> (\<forall>rep success. ending (runIntegrationTests cfg env) = Returns (rep, success) \<longrightarrow>
             results rep = recorded (final (runIntegrationTests cfg env))
             \<and> 2 \<le> skipped (summary rep))"
proof -
  let ?skipped = "[(''lighthouseAudit'', skipped_result ''Lighthouse performance audit''),
                   (''browserTests'', skipped_result ''Cross-browser compatibility tests'')]"
  have "\<exists>more. recorded (runSuites cfg env) = ?skipped @ more
          \<and> set (invoked (runSuites cfg env)) \<subseteq> {Deployment}"
    using assms
    by (cases "deploymentRun env") (simp_all add: runner_defs Let_def assign_runner)
  then obtain more where r: "recorded (runSuites cfg env) = ?skipped @ more"
    and i: "set (invoked (runSuites cfg env)) \<subseteq> {Deployment}" by blast
  have two: "2 \<le> count_status SKIPPED (recorded (runSuites cfg env))"
    unfolding r by (simp add: count_status_def skipped_result_def)
  have "\<forall>rep success. ending (runIntegrationTests cfg env) = Returns (rep, success) \<longrightarrow>
             results rep = recorded (final (runIntegrationTests cfg env))
             \<and> 2 \<le> skipped (summary rep)"
    using two
    by (auto simp: run_ending run_final build_report_def summarize_def
          split: if_splits option.splits)
  moreover have "Lighthouse \<notin> set (invoked (runSuites cfg env))"
    "Browser \<notin> set (invoked (runSuites cfg env))"
    using i by auto
  ultimately show ?thesis
    by (simp add: run_final r skipped_result_def)
qed

theorem server_down_skips_witness:
  "recorded (final (runIntegrationTests CONFIG (example_env False (Returns True) (Returns True) (Throws ''offline''))))
     = [(''lighthouseAudit'', skipped_result ''Lighthouse performance audit''),
        (''browserTests'', skipped_result ''Cross-browser compatibility tests''),
        (''deploymentVerification'',
           \<lparr>status = FAILED, description = ''GitHub Pages deployment verification'',
            error = Some ''offline'', details = None\<rparr>)]
   \<and> invoked (final (runIntegrationTests CONFIG (example_env False (Returns True) (Returns True) (Throws ''offline''))))
     = [Deployment]"
proof -
  let ?env = "example_env False (Returns True) (Returns True) (Throws ''offline'')"
  have h: "runLocal CONFIG" "\<not> serverCheck1 ?env" "\<not> serverCheck2 ?env"
    by (simp_all add: CONFIG_def example_env_def)
  have "recorded (final (runIntegrationTests CONFIG ?env))
     = [(''lighthouseAudit'', skipped_result ''Lighthouse performance audit''),
        (''browserTests'', skipped_result ''Cross-browser compatibility tests''),
        (''deploymentVerification'',
           \<lparr>status = FAILED, description = ''GitHub Pages deployment verification'',
            error = Some ''offline'', details = None\<rparr>)]"
    and "invoked (final (runIntegrationTests CONFIG ?env)) = [Deployment]"
    by (simp_all add: run_final runner_defs Let_def CONFIG_def example_env_def assign_runner)
  with server_down_skips [OF h] show ?thesis by simp
qed

text \<open>
  Claim C9, as the specification states it, fails for the name \<^verbatim>\<open>__proto__\<close>: recorded
  in the results object, it becomes no entry, and the summary counts one suite where two
  distinct names have been recorded.
\<close>

theorem recording_counterexample:
  "record_all [(''lighthouseAudit'', skipped_result ''first''),
               (''__proto__'', skipped_result ''second'')] []
     = [(''lighthouseAudit'', skipped_result ''first'')]
   \<and> totalTestSuites (summarize (record_all
         [(''lighthouseAudit'', skipped_result ''first''),
          (''__proto__'', skipped_result ''second'')] [])) = 1
   \<and> card (fst ` set [(''lighthouseAudit'', skipped_result ''first''),
                       (''__proto__'', skipped_result ''second'')]) = 2
   \<and> map_of (record_all [(''lighthouseAudit'', skipped_result ''first''),
                          (''__proto__'', skipped_result ''second'')] []) ''__proto__'' = None"
proof -
  have p: "''__proto__'' = proto_name" by (simp add: proto_name_def)
  have n: "proto_name \<notin> fst ` set [(''lighthouseAudit'', skipped_result ''first'')]"
    by (simp add: proto_name_def)
  have r: "record_all [(''lighthouseAudit'', skipped_result ''first''),
                       (proto_name, skipped_result ''second'')] []
     = [(''lighthouseAudit'', skipped_result ''first'')]"
    by (simp add: record_all_def assign_runner assign_proto [OF n])
  have c: "card (fst ` set [(''lighthouseAudit'', skipped_result ''first''),
                            (proto_name, skipped_result ''second'')]) = 2"
    by (simp add: runner_names_not_proto)
  have m: "map_of [(''lighthouseAudit'', skipped_result ''first'')] proto_name = None"
    by (simp add: proto_name_def)
  show ?thesis
    unfolding p r using c m by (simp add: summarize_def)
qed

text \<open>
  Claim C9, amended. Recording under a name that the results already have replaces the
  entry: the names, their order and their number stay, and the name now maps to the new
  result. Recording under any name other than \<^verbatim>\<open>__proto__\<close> makes the name map to the
  new result, at the end of the results when the name is new and no array index;
  recording under the new name \<^verbatim>\<open>__proto__\<close> changes nothing. No recording changes the
  result of another name. After any sequence of recordings the names are distinct, they
  are the names recorded other than \<^verbatim>\<open>__proto__\<close>, the summary counts as many suites
  as there are such names, and each of them has the result recorded last.
\<close>

theorem recording_replaces:
  "(k \<in> fst ` set rs \<longrightarrow>
        map fst (assign k v rs) = map fst rs
      \<and> length (assign k v rs) = length rs
      \<and> totalTestSuites (summarize (assign k v rs)) = totalTestSuites (summarize rs)
      \<and> map_of (assign k v rs) k = Some v)
   \<and> (k \<noteq> proto_name \<longrightarrow> map_of (assign k v rs) k = Some v)
   \<and> (k \<notin> fst ` set rs \<and> k \<noteq> proto_name \<and> \<not> is_array_index k \<longrightarrow>
         assign k v rs = rs @ [(k, v)])
   \<and> (k \<notin> fst ` set rs \<and> k = proto_name \<longrightarrow> assign k v rs = rs)
   \<and> (\<forall>k'. k' \<noteq> k \<longrightarrow> map_of (assign k v rs) k' = map_of rs k')
   \<and> distinct (map fst (record_all writes []))
   \<and> fst ` set (record_all writes []) = fst ` set writes - {proto_name}
   \<and> totalTestSuites (summarize (record_all writes [])) = card (fst ` set writes - {proto_name})
   \<and> (\<forall>k'. k' \<noteq> proto_name \<longrightarrow>
         map_of (record_all writes []) k' = map_of (rev writes) k')"
proof -
  have d: "distinct (map fst (record_all writes []))"
    and s: "fst ` set (record_all writes []) - {proto_name} = fst ` set writes - {proto_name}"
    and p: "proto_name \<notin> fst ` set (record_all writes [])"
    using record_all_keys [of "[]" writes] by simp_all
  have keys: "fst ` set (record_all writes []) = fst ` set writes - {proto_name}"
    using s p by auto
  have "length (record_all writes []) = length (map fst (record_all writes []))" by simp
  also have "\<dots> = card (set (map fst (record_all writes [])))"
    using d by (simp only: distinct_card)
  finally have "length (record_all writes []) = card (fst ` set writes - {proto_name})"
    using keys by simp
  then have total: "totalTestSuites (summarize (record_all writes []))
      = card (fst ` set writes - {proto_name})"
    by (simp add: summarize_def)
  have present: "k \<in> fst ` set rs \<longrightarrow>
        map fst (assign k v rs) = map fst rs
      \<and> length (assign k v rs) = length rs
      \<and> totalTestSuites (summarize (assign k v rs)) = totalTestSuites (summarize rs)
      \<and> map_of (assign k v rs) k = Some v"
    by (simp add: assign_present map_fst_replace_value length_replace_value summarize_def
          map_of_replace_value)
  have named: "k \<noteq> proto_name \<longrightarrow> map_of (assign k v rs) k = Some v"
    by (simp add: map_of_assign)
  have ordinary: "k \<notin> fst ` set rs \<and> k \<noteq> proto_name \<and> \<not> is_array_index k \<longrightarrow>
         assign k v rs = rs @ [(k, v)]"
    by (simp add: assign_ordinary)
  have proto: "k \<notin> fst ` set rs \<and> k = proto_name \<longrightarrow> assign k v rs = rs"
    by (auto simp: assign_proto)
  have others: "\<forall>k'. k' \<noteq> k \<longrightarrow> map_of (assign k v rs) k' = map_of rs k'"
  proof (cases "k \<in> fst ` set rs \<or> k \<noteq> proto_name")
    case True
    from map_of_assign [OF True] show ?thesis by simp
  next
    case False
    then show ?thesis by (auto simp: assign_proto)
  qed
  have last: "\<forall>k'. k' \<noteq> proto_name \<longrightarrow>
         map_of (record_all writes []) k' = map_of (rev writes) k'"
    using record_all_map_of [of "[]" _ writes] by simp
  from present named ordinary proto others d keys total last show ?thesis
    by (intro conjI)
qed

theorem recording_replaces_witness:
  "record_all [(''a'', skipped_result ''first''), (''b'', skipped_result ''other''),
               (''a'', skipped_result ''second'')] []
     = [(''a'', skipped_result ''second''), (''b'', skipped_result ''other'')]
   \<and> totalTestSuites (summarize (assign ''a'' (skipped_result ''second'')
        [(''a'', skipped_result ''first''), (''b'', skipped_result ''other'')])) = 2
   \<and> map_of (assign ''a'' (skipped_result ''second'')
        [(''a'', skipped_result ''first''), (''b'', skipped_result ''other'')]) ''a''
       = Some (skipped_result ''second'')
   \<and> assign ''c'' (skipped_result ''third'')
        [(''a'', skipped_result ''first''), (''b'', skipped_result ''other'')]
       = [(''a'', skipped_result ''first''), (''b'', skipped_result ''other''),
          (''c'', skipped_result ''third'')]
   \<and> assign ''__proto__'' (skipped_result ''third'')
        [(''a'', skipped_result ''first''), (''b'', skipped_result ''other'')]
       = [(''a'', skipped_result ''first''), (''b'', skipped_result ''other'')]"
proof -
  let ?rs = "[(''a'', skipped_result ''first''), (''b'', skipped_result ''other'')]"
  have names: "\<not> is_array_index ''a''" "\<not> is_array_index ''b''" "\<not> is_array_index ''c''"
    "''a'' \<noteq> proto_name" "''b'' \<noteq> proto_name" "''c'' \<noteq> proto_name"
    "''__proto__'' = proto_name"
    by (simp_all add: is_array_index_def is_digit_def proto_name_def)
  have present: "''a'' \<in> fst ` set ?rs" by simp
  have new: "''c'' \<notin> fst ` set ?rs" by simp
  have absent: "proto_name \<notin> fst ` set ?rs" by (simp add: proto_name_def)
  have 1: "record_all [(''a'', skipped_result ''first''), (''b'', skipped_result ''other''),
               (''a'', skipped_result ''second'')] []
     = [(''a'', skipped_result ''second''), (''b'', skipped_result ''other'')]"
    using names by (simp add: record_all_def assign_def)
  have 2: "totalTestSuites (summarize (assign ''a'' (skipped_result ''second'') ?rs)) = 2
      \<and> map_of (assign ''a'' (skipped_result ''second'') ?rs) ''a''
          = Some (skipped_result ''second'')"
    using recording_replaces [of "''a''" ?rs "skipped_result ''second''" "[]"] present
    by (simp add: summarize_def)
  have 3: "assign ''c'' (skipped_result ''third'') ?rs = ?rs @ [(''c'', skipped_result ''third'')]"
    using recording_replaces [of "''c''" ?rs "skipped_result ''third''" "[]"] new names(3,6)
    by blast
  have 4: "assign proto_name (skipped_result ''third'') ?rs = ?rs"
    using recording_replaces [of proto_name ?rs "skipped_result ''third''" "[]"] absent
    by blast
  from 1 2 3 4 show ?thesis
    unfolding names(7) by simp
qed

section \<open>The renderings of the report\<close>

lemma sublist_behind: "sublist xs ys \<Longrightarrow> sublist xs (ps @ ys)"
  by (auto simp: sublist_def) (metis append_assoc)

lemma sublist_between:
  "sublist xs ys \<Longrightarrow> sublist xs (ps @ ys @ ss)"
  by (auto simp: sublist_def) (metis append_assoc)

lemma overall_score_half: "overall_score 1 2 = 50"
  by code_simp

lemma overall_score_half_Suc: "overall_score (Suc 0) (Suc (Suc 0)) = 50"
  using overall_score_half by (simp add: numeral_2_eq_2)

lemma report_timestamp_first:
  "\<exists>fields. fields \<noteq> [] \<and>
     (\<forall>ts. report_json (build_report (env\<lparr>now := ts\<rparr>) rs)
             = JObject ((''timestamp'', JString ts) # fields))"
  by (simp add: report_json_def build_report_def)

lemma json_file_content:
  "content (hd (fst (generateComprehensiveReport dir (env\<lparr>now := ts, writeJson := None\<rparr>) rs)))
     = JSON_stringify (report_json (build_report (env\<lparr>now := ts\<rparr>) rs))"
  by (simp add: generateComprehensiveReport_def Let_def build_report_def split: option.splits)

text \<open>
  Claim C8. For the same results and the same environment, the JSON text of the report,
  which is the content of the JSON file written, is a fixed text, the quoted time stamp,
  and another fixed text: two renderings are byte-identical except for the value of the
  \<^verbatim>\<open>timestamp\<close> field.
\<close>

theorem machine_report_differs_in_timestamp_only:
  "\<exists>before after. \<forall>ts.
      JSON_stringify (report_json (build_report (env\<lparr>now := ts\<rparr>) rs))
        = before @ quote ts @ after
      \<and> content (hd (fst (generateComprehensiveReport dir (env\<lparr>now := ts, writeJson := None\<rparr>) rs)))
        = before @ quote ts @ after"
proof -
  obtain fields where ne: "fields \<noteq> []"
    and eq: "\<And>ts. report_json (build_report (env\<lparr>now := ts\<rparr>) rs)
                     = JObject ((''timestamp'', JString ts) # fields)"
    using report_timestamp_first [of env rs] by blast
  obtain f fs where fields: "fields = f # fs" using ne by (cases fields) auto
  let ?item = "\<lambda>p. quote (fst p) @ '': '' @ stringify ''  '' (snd p)"
  let ?sep = "'','' @ ''\<newline>'' @ ''  ''"
  have "\<forall>ts. JSON_stringify (report_json (build_report (env\<lparr>now := ts\<rparr>) rs))
          = (''{'' @ ''\<newline>'' @ ''  '' @ quote ''timestamp'' @ '': '') @ quote ts
            @ (?sep @ join ?sep (map ?item (f # fs)) @ ''\<newline>'' @ ''}'')"
    by (simp add: eq fields JSON_stringify_def)
  then show ?thesis unfolding json_file_content by blast
qed

lemma sublist_front: "sublist xs ys \<Longrightarrow> sublist xs (ys @ ss)"
  by (auto simp: sublist_def) (metis append_assoc)

lemma html_report_items:
  "sublist xs (concat (map result_item (results rep))) \<Longrightarrow>
   sublist xs (generateHTMLReport localeString rep)"
proof -
  assume a: "sublist xs (concat (map result_item (results rep)))"
  have "generateHTMLReport localeString rep =
     (html_before_score @ Number_toString (overallScore (summary rep))
      @ html_before_passed @ decimal (passed (summary rep))
      @ html_before_failed @ decimal (failed (summary rep))
      @ html_before_skipped @ decimal (skipped (summary rep))
      @ html_before_total @ decimal (totalTestSuites (summary rep))
      @ html_before_results)
     @ concat (map result_item (results rep))
     @ (html_before_requirements @ concat (map requirement_item (requirements rep))
        @ html_before_timestamp @ localeString (timestamp rep)
        @ html_after_timestamp)"
    by (simp add: generateHTMLReport_def)
  with a show ?thesis by (simp only: sublist_between)
qed

lemma html_report_item:
  assumes "entry \<in> set (results rep)" and "sublist xs (result_item entry)"
  shows "sublist xs (generateHTMLReport localeString rep)"
proof -
  from assms(1) obtain before after where "results rep = before @ entry # after"
    by (auto simp: in_set_conv_decomp)
  then have "concat (map result_item (results rep))
      = concat (map result_item before) @ result_item entry @ concat (map result_item after)"
    by simp
  with assms(2) have "sublist xs (concat (map result_item (results rep)))"
    by (simp only: sublist_between)
  then show ?thesis by (rule html_report_items)
qed

lemma item_name:
  "sublist (''<h3>'' @ statusIcon (status r) @ '' '' @ name @ ''</h3>'') (result_item (name, r))"
proof -
  have "result_item (name, r) =
      (''\<newline>''
       @ ''            <div class=\"result-item\">\<newline>''
       @ ''                <div class=\"result-info\">\<newline>''
       @ ''                    '')
      @ (''<h3>'' @ statusIcon (status r) @ '' '' @ name @ ''</h3>'')
      @ (''\<newline>''
         @ ''                    <p>'' @ description r @ ''</p>\<newline>''
         @ ''                    '' @ error_paragraph r @ ''\<newline>''
         @ ''                    '' @ details_paragraph r @ ''\<newline>''
         @ ''                </div>\<newline>''
         @ ''                <div class=\"result-status\" style=\"background-color: ''
             @ statusColor (status r) @ ''\">\<newline>''
         @ ''                    '' @ status_string (status r) @ ''\<newline>''
         @ ''                </div>\<newline>''
         @ ''            </div>\<newline>''
         @ ''        '')"
    by (simp add: result_item_def)
  then show ?thesis by (simp only: sublist_appendI)
qed

lemma item_error:
  "sublist (error_paragraph r) (result_item (name, r))"
proof -
  have "result_item (name, r) =
      (''\<newline>''
       @ ''            <div class=\"result-item\">\<newline>''
       @ ''                <div class=\"result-info\">\<newline>''
       @ ''                    <h3>'' @ statusIcon (status r) @ '' '' @ name @ ''</h3>\<newline>''
       @ ''                    <p>'' @ description r @ ''</p>\<newline>''
       @ ''                    '')
      @ error_paragraph r
      @ (''\<newline>''
         @ ''                    '' @ details_paragraph r @ ''\<newline>''
         @ ''                </div>\<newline>''
         @ ''                <div class=\"result-status\" style=\"background-color: ''
             @ statusColor (status r) @ ''\">\<newline>''
         @ ''                    '' @ status_string (status r) @ ''\<newline>''
         @ ''                </div>\<newline>''
         @ ''            </div>\<newline>''
         @ ''        '')"
    by (simp add: result_item_def)
  then show ?thesis by (simp only: sublist_appendI)
qed

lemma item_details:
  "sublist (details_paragraph r) (result_item (name, r))"
proof -
  have "result_item (name, r) =
      (''\<newline>''
       @ ''            <div class=\"result-item\">\<newline>''
       @ ''                <div class=\"result-info\">\<newline>''
       @ ''                    <h3>'' @ statusIcon (status r) @ '' '' @ name @ ''</h3>\<newline>''
       @ ''                    <p>'' @ description r @ ''</p>\<newline>''
       @ ''                    '' @ error_paragraph r @ ''\<newline>''
       @ ''                    '')
      @ details_paragraph r
      @ (''\<newline>''
         @ ''                </div>\<newline>''
         @ ''                <div class=\"result-status\" style=\"background-color: ''
             @ statusColor (status r) @ ''\">\<newline>''
         @ ''                    '' @ status_string (status r) @ ''\<newline>''
         @ ''                </div>\<newline>''
         @ ''            </div>\<newline>''
         @ ''        '')"
    by (simp add: result_item_def)
  then show ?thesis by (simp only: sublist_appendI)
qed

lemma item_status:
  "sublist (''background-color: '' @ statusColor (status r) @ ''\">\<newline>''
            @ ''                    '' @ status_string (status r) @ ''\<newline>'')
     (result_item (name, r))"
proof -
  have "result_item (name, r) =
      (''\<newline>''
       @ ''            <div class=\"result-item\">\<newline>''
       @ ''                <div class=\"result-info\">\<newline>''
       @ ''                    <h3>'' @ statusIcon (status r) @ '' '' @ name @ ''</h3>\<newline>''
       @ ''                    <p>'' @ description r @ ''</p>\<newline>''
       @ ''                    '' @ error_paragraph r @ ''\<newline>''
       @ ''                    '' @ details_paragraph r @ ''\<newline>''
       @ ''                </div>\<newline>''
       @ ''                <div class=\"result-status\" style=\"'')
      @ (''background-color: '' @ statusColor (status r) @ ''\">\<newline>''
         @ ''                    '' @ status_string (status r) @ ''\<newline>'')
      @ (''                </div>\<newline>''
         @ ''            </div>\<newline>''
         @ ''        '')"
    by (simp add: result_item_def)
  then show ?thesis by (simp only: sublist_appendI)
qed

lemma summarize_error_update:
  "summarize (before @ (name, r\<lparr>error := x\<rparr>) # after) = summarize (before @ (name, r) # after)"
  by (simp add: summarize_def count_status_def)

lemma summarize_details_update:
  "summarize (before @ (name, r\<lparr>details := x\<rparr>) # after) = summarize (before @ (name, r) # after)"
  by (simp add: summarize_def count_status_def)

lemma html_error_slot:
  "\<exists>pre post. \<forall>x.
     generateHTMLReport localeString (build_report env (before @ (name, r\<lparr>error := x\<rparr>) # after))
       = pre @ error_paragraph (r\<lparr>error := x\<rparr>) @ post"
proof -
  let ?s = "summarize (before @ (name, r) # after)"
  let ?pre = "html_before_score @ Number_toString (overallScore ?s)
      @ html_before_passed @ decimal (passed ?s)
      @ html_before_failed @ decimal (failed ?s)
      @ html_before_skipped @ decimal (skipped ?s)
      @ html_before_total @ decimal (totalTestSuites ?s)
      @ html_before_results @ concat (map result_item before)
      @ ''\<newline>''
      @ ''            <div class=\"result-item\">\<newline>''
      @ ''                <div class=\"result-info\">\<newline>''
      @ ''                    <h3>'' @ statusIcon (status r) @ '' '' @ name @ ''</h3>\<newline>''
      @ ''                    <p>'' @ description r @ ''</p>\<newline>''
      @ ''                    ''"
  let ?post = "''\<newline>''
      @ ''                    '' @ details_paragraph r @ ''\<newline>''
      @ ''                </div>\<newline>''
      @ ''                <div class=\"result-status\" style=\"background-color: ''
          @ statusColor (status r) @ ''\">\<newline>''
      @ ''                    '' @ status_string (status r) @ ''\<newline>''
      @ ''                </div>\<newline>''
      @ ''            </div>\<newline>''
      @ ''        ''
      @ concat (map result_item after)
      @ html_before_requirements @ concat (map requirement_item requirements_table)
      @ html_before_timestamp @ localeString (now env)
      @ html_after_timestamp"
  have d: "\<And>x. details_paragraph (r\<lparr>error := x\<rparr>) = details_paragraph r"
    by (simp add: details_paragraph_def)
  have "\<forall>x. generateHTMLReport localeString (build_report env (before @ (name, r\<lparr>error := x\<rparr>) # after))
       = ?pre @ error_paragraph (r\<lparr>error := x\<rparr>) @ ?post"
    by (simp add: generateHTMLReport_def build_report_def summarize_error_update result_item_def d)
  then show ?thesis by blast
qed

lemma html_details_slot:
  "\<exists>pre post. \<forall>x.
     generateHTMLReport localeString (build_report env (before @ (name, r\<lparr>details := x\<rparr>) # after))
       = pre @ details_paragraph (r\<lparr>details := x\<rparr>) @ post"
proof -
  let ?s = "summarize (before @ (name, r) # after)"
  let ?pre = "html_before_score @ Number_toString (overallScore ?s)
      @ html_before_passed @ decimal (passed ?s)
      @ html_before_failed @ decimal (failed ?s)
      @ html_before_skipped @ decimal (skipped ?s)
      @ html_before_total @ decimal (totalTestSuites ?s)
      @ html_before_results @ concat (map result_item before)
      @ ''\<newline>''
      @ ''            <div class=\"result-item\">\<newline>''
      @ ''                <div class=\"result-info\">\<newline>''
      @ ''                    <h3>'' @ statusIcon (status r) @ '' '' @ name @ ''</h3>\<newline>''
      @ ''                    <p>'' @ description r @ ''</p>\<newline>''
      @ ''                    '' @ error_paragraph r @ ''\<newline>''
      @ ''                    ''"
  let ?post = "''\<newline>''
      @ ''                </div>\<newline>''
      @ ''                <div class=\"result-status\" style=\"background-color: ''
          @ statusColor (status r) @ ''\">\<newline>''
      @ ''                    '' @ status_string (status r) @ ''\<newline>''
      @ ''                </div>\<newline>''
      @ ''            </div>\<newline>''
      @ ''        ''
      @ concat (map result_item after)
      @ html_before_requirements @ concat (map requirement_item requirements_table)
      @ html_before_timestamp @ localeString (now env)
      @ html_after_timestamp"
  have e: "\<And>x. error_paragraph (r\<lparr>details := x\<rparr>) = error_paragraph r"
    by (simp add: error_paragraph_def)
  have "\<forall>x. generateHTMLReport localeString (build_report env (before @ (name, r\<lparr>details := x\<rparr>) # after))
       = ?pre @ details_paragraph (r\<lparr>details := x\<rparr>) @ ?post"
    by (simp add: generateHTMLReport_def build_report_def summarize_details_update result_item_def e)
  then show ?thesis by blast
qed

lemma html_error_only_when_present:
  "\<exists>pre post.
     (\<forall>e. e \<noteq> [] \<longrightarrow>
        generateHTMLReport localeString
          (build_report env (before @ (name, r\<lparr>error := Some e\<rparr>) # after))
        = pre @ (''<p style=\"color: #ef4444; font-size: 0.9em;\">Error: '' @ e @ ''</p>'') @ post)
     \<and> generateHTMLReport localeString
          (build_report env (before @ (name, r\<lparr>error := None\<rparr>) # after))
        = pre @ post
     \<and> generateHTMLReport localeString
          (build_report env (before @ (name, r\<lparr>error := Some []\<rparr>) # after))
        = pre @ post"
proof -
  obtain pre post where h: "\<And>x.
     generateHTMLReport localeString (build_report env (before @ (name, r\<lparr>error := x\<rparr>) # after))
       = pre @ error_paragraph (r\<lparr>error := x\<rparr>) @ post"
    using html_error_slot [of localeString env before name r after] by blast
  have "(\<forall>e. e \<noteq> [] \<longrightarrow>
        generateHTMLReport localeString
          (build_report env (before @ (name, r\<lparr>error := Some e\<rparr>) # after))
        = pre @ (''<p style=\"color: #ef4444; font-size: 0.9em;\">Error: '' @ e @ ''</p>'') @ post)
     \<and> generateHTMLReport localeString
          (build_report env (before @ (name, r\<lparr>error := None\<rparr>) # after))
        = pre @ post
     \<and> generateHTMLReport localeString
          (build_report env (before @ (name, r\<lparr>error := Some []\<rparr>) # after))
        = pre @ post"
    unfolding h by (simp add: error_paragraph_def)
  then show ?thesis by blast
qed

lemma html_details_only_when_present:
  "\<exists>pre post.
     (\<forall>d. d \<noteq> [] \<longrightarrow>
        generateHTMLReport localeString
          (build_report env (before @ (name, r\<lparr>details := Some d\<rparr>) # after))
        = pre @ (''<p style=\"color: #6b7280; font-size: 0.9em;\">'' @ d @ ''</p>'') @ post)
     \<and> generateHTMLReport localeString
          (build_report env (before @ (name, r\<lparr>details := None\<rparr>) # after))
        = pre @ post
     \<and> generateHTMLReport localeString
          (build_report env (before @ (name, r\<lparr>details := Some []\<rparr>) # after))
        = pre @ post"
proof -
  obtain pre post where h: "\<And>x.
     generateHTMLReport localeString (build_report env (before @ (name, r\<lparr>details := x\<rparr>) # after))
       = pre @ details_paragraph (r\<lparr>details := x\<rparr>) @ post"
    using html_details_slot [of localeString env before name r after] by blast
  have "(\<forall>d. d \<noteq> [] \<longrightarrow>
        generateHTMLReport localeString
          (build_report env (before @ (name, r\<lparr>details := Some d\<rparr>) # after))
        = pre @ (''<p style=\"color: #6b7280; font-size: 0.9em;\">'' @ d @ ''</p>'') @ post)
     \<and> generateHTMLReport localeString
          (build_report env (before @ (name, r\<lparr>details := None\<rparr>) # after))
        = pre @ post
     \<and> generateHTMLReport localeString
          (build_report env (before @ (name, r\<lparr>details := Some []\<rparr>) # after))
        = pre @ post"
    unfolding h by (simp add: details_paragraph_def)
  then show ?thesis by blast
qed

lemma marker_free_iff:
  "marker_free s \<longleftrightarrow> \<not> sublist ''Er'' s \<and> \<not> suffix ''E'' s"
proof (induction s rule: marker_free.induct)
  case 1
  show ?case by simp
next
  case (2 x)
  show ?case by (auto simp: suffix_Cons sublist_Cons_right)
next
  case (3 x y s)
  then show ?case by (auto simp: suffix_Cons sublist_Cons_right)
qed

lemma marker_free_append:
  "marker_free xs \<Longrightarrow> marker_free ys \<Longrightarrow> marker_free (xs @ ys)"
proof (induction xs rule: marker_free.induct)
  case 1
  then show ?case by simp
next
  case (2 x)
  then show ?case by (cases ys) simp_all
next
  case (3 x y s)
  then show ?case by simp
qed

lemma marker_free_concat:
  "(\<And>x. x \<in> set xss \<Longrightarrow> marker_free x) \<Longrightarrow> marker_free (concat xss)"
  by (induction xss) (simp_all add: marker_free_append)

lemma marker_free_no_E:
  "CHR ''E'' \<notin> set s \<Longrightarrow> marker_free s"
  by (induction s rule: marker_free.induct) auto

lemma marker_free_template:
  "marker_free html_before_score" "marker_free html_before_passed"
  "marker_free html_before_failed" "marker_free html_before_skipped"
  "marker_free html_before_total" "marker_free html_before_results"
  "marker_free html_before_requirements" "marker_free html_before_timestamp"
  "marker_free html_after_timestamp"
  by (simp_all add: html_before_score_def html_before_passed_def html_before_failed_def
        html_before_skipped_def html_before_total_def html_before_results_def
        html_before_requirements_def html_before_timestamp_def html_after_timestamp_def)

lemma decimal_digits: "set (decimal n) \<subseteq> set ''0123456789''"
proof (induction n rule: decimal.induct)
  case (1 n)
  have d: "\<And>k. k < 10 \<Longrightarrow> digit k \<in> set ''0123456789''"
    unfolding digit_def by (rule nth_mem) simp
  show ?case
  proof (cases "n < 10")
    case True
    then show ?thesis using d [of n] by (subst decimal.simps) simp
  next
    case False
    have "n mod 10 < 10" by simp
    from d [OF this] 1 [OF False] False show ?thesis by (subst decimal.simps) simp
  qed
qed

lemma marker_free_decimal: "marker_free (decimal n)"
  using decimal_digits [of n] by (intro marker_free_no_E) auto

lemma marker_free_Number_toString: "marker_free (Number_toString n)"
  using decimal_digits [of "nat (- n)"] decimal_digits [of "nat n"]
  by (intro marker_free_no_E) (auto simp: Number_toString_def)

lemma marker_free_requirements:
  "marker_free (concat (map requirement_item requirements_table))"
  by (simp add: requirements_table_def requirement_item_def)

lemma marker_free_result_item:
  assumes "error r = None \<or> error r = Some []"
    and "marker_free name" and "marker_free (description r)"
    and "\<And>d. details r = Some d \<Longrightarrow> marker_free d"
  shows "marker_free (result_item (name, r))"
proof -
  have e: "error_paragraph r = []"
    using assms(1) by (auto simp: error_paragraph_def)
  have d: "marker_free (details_paragraph r)"
  proof (cases "details r")
    case None
    then show ?thesis by (simp add: details_paragraph_def)
  next
    case (Some d)
    show ?thesis
    proof (cases "d = []")
      case True
      with Some show ?thesis by (simp add: details_paragraph_def)
    next
      case False
      with Some have "details_paragraph r
          = ''<p style=\"color: #6b7280; font-size: 0.9em;\">'' @ d @ ''</p>''"
        by (simp add: details_paragraph_def)
      then show ?thesis
        by (simp only:) (intro marker_free_append assms(4) [OF Some]; simp)
    qed
  qed
  have i: "marker_free (statusIcon (status r))" "marker_free (statusColor (status r))"
    "marker_free (status_string (status r))"
    by (cases "status r"; simp)+
  show ?thesis
    unfolding result_item_def e fst_conv snd_conv
    by (intro marker_free_append assms(2,3) d i) simp_all
qed

lemma html_marker_free:
  assumes "\<And>name r. (name, r) \<in> set rs \<Longrightarrow>
             (error r = None \<or> error r = Some []) \<and> marker_free name
             \<and> marker_free (description r) \<and> (\<forall>d. details r = Some d \<longrightarrow> marker_free d)"
    and "marker_free (localeString (now env))"
  shows "marker_free (generateHTMLReport localeString (build_report env rs))"
proof -
  have items: "marker_free (concat (map result_item rs))"
  proof (rule marker_free_concat)
    fix x assume "x \<in> set (map result_item rs)"
    then obtain name r where m: "(name, r) \<in> set rs" and x: "x = result_item (name, r)" by auto
    from assms(1) [OF m] show "marker_free x"
      unfolding x by (intro marker_free_result_item) auto
  qed
  show ?thesis
    unfolding generateHTMLReport_def build_report_def report.simps
    by (intro marker_free_append marker_free_template marker_free_decimal
          marker_free_Number_toString items marker_free_requirements assms(2))
qed

lemma html_no_error_text:
  assumes "\<And>name r. (name, r) \<in> set rs \<Longrightarrow>
             (error r = None \<or> error r = Some []) \<and> marker_free name
             \<and> marker_free (description r) \<and> (\<forall>d. details r = Some d \<longrightarrow> marker_free d)"
    and "marker_free (localeString (now env))"
  shows "\<not> sublist ''Error: '' (generateHTMLReport localeString (build_report env rs))"
proof
  assume "sublist ''Error: '' (generateHTMLReport localeString (build_report env rs))"
  moreover have "sublist ''Er'' ''Error: ''"
    by (rule prefix_imp_sublist) simp
  ultimately have "sublist ''Er'' (generateHTMLReport localeString (build_report env rs))"
    by (rule sublist_order.order.trans [rotated])
  moreover have "marker_free (generateHTMLReport localeString (build_report env rs))"
    using assms by (intro html_marker_free) auto
  ultimately show False
    by (simp add: marker_free_iff)
qed

text \<open>
  Claim C6. For the results \<open>a\<close> (PASSED) and \<open>b\<close> (FAILED with the error \<open>timeout\<close>),
  whatever their descriptions, the summary is 2 suites, 1 passed, 1 failed, 0 skipped and
  the score 50; the HTML report has the heading of \<open>a\<close> with the mark of PASSED and its
  PASSED badge, the heading of \<open>b\<close>, and the error paragraph with the text \<open>timeout\<close>.
  For any result, the error and the details paragraph are empty when the field is absent,
  and hold the text of the field, inside the item of the result, when it is present and
  not empty. For the HTML report of any results: the paragraph of an error or details
  field that is present and not empty occurs in the report; the report of a result with
  the field is the report of the same result without the field (or with the empty text)
  with that paragraph put in at one place, and nothing else changed; and the report does
  not contain the text \<open>Error: \<close> at all when no result has an error and the names,
  descriptions, details and the date, the texts that the report takes from outside, do
  not bring the beginning of that text with them.
\<close>

theorem two_suite_report:
  fixes da db :: string and env :: report_env and r :: suite_result
    and before after others :: results
  defines "rs \<equiv> [(''a'', \<lparr>status = PASSED, description = da, error = None, details = None\<rparr>),
                  (''b'', \<lparr>status = FAILED, description = db, error = Some ''timeout'',
                           details = None\<rparr>)]"
  defines "html \<equiv> generateHTMLReport (toLocaleString env) (build_report env rs)"
  shows "summarize rs = \<lparr>totalTestSuites = 2, passed = 1, failed = 1, skipped = 0, overallScore = 50\<rparr>
    \<and> sublist (''<h3>'' @ [CHR 0xE2, CHR 0x9C, CHR 0x85] @ '' a</h3>'') html
    \<and> sublist (''background-color: #22c55e\">\<newline>'' @ ''                    PASSED\<newline>'') html
    \<and> sublist (''<h3>'' @ [CHR 0xE2, CHR 0x9D, CHR 0x8C] @ '' b</h3>'') html
    \<and> sublist ''<p style=\"color: #ef4444; font-size: 0.9em;\">Error: timeout</p>'' html
    \<and> (error r = None \<longrightarrow> error_paragraph r = [])
    \<and> (details r = None \<longrightarrow> details_paragraph r = [])
    \<and> (\<forall>e. error r = Some e \<and> e \<noteq> [] \<longrightarrow>
          error_paragraph r = ''<p style=\"color: #ef4444; font-size: 0.9em;\">Error: '' @ e @ ''</p>''
          \<and> sublist (error_paragraph r) (result_item (name, r)))
    \<and> (\<forall>d. details r = Some d \<and> d \<noteq> [] \<longrightarrow>
          details_paragraph r = ''<p style=\"color: #6b7280; font-size: 0.9em;\">'' @ d @ ''</p>''
          \<and> sublist (details_paragraph r) (result_item (name, r)))
    \<and> (\<forall>e. error r = Some e \<and> e \<noteq> [] \<longrightarrow>
          sublist (''<p style=\"color: #ef4444; font-size: 0.9em;\">Error: '' @ e @ ''</p>'')
            (generateHTMLReport (toLocaleString env)
               (build_report env (before @ (name, r) # after))))
    \<and> (\<forall>d. details r = Some d \<and> d \<noteq> [] \<longrightarrow>
          sublist (''<p style=\"color: #6b7280; font-size: 0.9em;\">'' @ d @ ''</p>'')
            (generateHTMLReport (toLocaleString env)
               (build_report env (before @ (name, r) # after))))
    \<and> (\<exists>pre post.
          (\<forall>e. e \<noteq> [] \<longrightarrow>
             generateHTMLReport (toLocaleString env)
               (build_report env (before @ (name, r\<lparr>error := Some e\<rparr>) # after))
             = pre @ (''<p style=\"color: #ef4444; font-size: 0.9em;\">Error: '' @ e @ ''</p>'') @ post)
          \<and> generateHTMLReport (toLocaleString env)
               (build_report env (before @ (name, r\<lparr>error := None\<rparr>) # after))
             = pre @ post
          \<and> generateHTMLReport (toLocaleString env)
               (build_report env (before @ (name, r\<lparr>error := Some []\<rparr>) # after))
             = pre @ post)
    \<and> (\<exists>pre post.
          (\<forall>d. d \<noteq> [] \<longrightarrow>
             generateHTMLReport (toLocaleString env)
               (build_report env (before @ (name, r\<lparr>details := Some d\<rparr>) # after))
             = pre @ (''<p style=\"color: #6b7280; font-size: 0.9em;\">'' @ d @ ''</p>'') @ post)
          \<and> generateHTMLReport (toLocaleString env)
               (build_report env (before @ (name, r\<lparr>details := None\<rparr>) # after))
             = pre @ post
          \<and> generateHTMLReport (toLocaleString env)
               (build_report env (before @ (name, r\<lparr>details := Some []\<rparr>) # after))
             = pre @ post)
    \<and> ((\<forall>entry \<in> set others.
            (error (snd entry) = None \<or> error (snd entry) = Some [])
            \<and> marker_free (fst entry) \<and> marker_free (description (snd entry))
            \<and> (\<forall>d. details (snd entry) = Some d \<longrightarrow> marker_free d))
         \<and> marker_free (toLocaleString env (now env)) \<longrightarrow>
         \<not> sublist ''Error: ''
             (generateHTMLReport (toLocaleString env) (build_report env others)))"
proof -
  let ?a = "(''a'', \<lparr>status = PASSED, description = da, error = None, details = None\<rparr>)"
  let ?b = "(''b'', \<lparr>status = FAILED, description = db, error = Some ''timeout'', details = None\<rparr>)"
  let ?all = "before @ (name, r) # after"
  have s: "summarize rs = \<lparr>totalTestSuites = 2, passed = 1, failed = 1, skipped = 0, overallScore = 50\<rparr>"
    by (simp add: rs_def summarize_def count_status_def overall_score_half_Suc)
  have a: "?a \<in> set (results (build_report env rs))" and b: "?b \<in> set (results (build_report env rs))"
    by (simp_all add: build_report_def rs_def)
  have 1: "sublist (''<h3>'' @ [CHR 0xE2, CHR 0x9C, CHR 0x85] @ '' a</h3>'') html"
    unfolding html_def using item_name [of "snd ?a" "''a''"]
    by (intro html_report_item [OF a]) simp
  have 2: "sublist (''background-color: #22c55e\">\<newline>'' @ ''                    PASSED\<newline>'') html"
    unfolding html_def using item_status [of "snd ?a" "''a''"]
    by (intro html_report_item [OF a]) simp
  have 3: "sublist (''<h3>'' @ [CHR 0xE2, CHR 0x9D, CHR 0x8C] @ '' b</h3>'') html"
    unfolding html_def using item_name [of "snd ?b" "''b''"]
    by (intro html_report_item [OF b]) simp
  have 4: "sublist ''<p style=\"color: #ef4444; font-size: 0.9em;\">Error: timeout</p>'' html"
    unfolding html_def using item_error [of "snd ?b" "''b''"]
    by (intro html_report_item [OF b]) (simp add: error_paragraph_def)
  have 5: "error r = None \<longrightarrow> error_paragraph r = []"
    by (simp add: error_paragraph_def)
  have 6: "details r = None \<longrightarrow> details_paragraph r = []"
    by (simp add: details_paragraph_def)
  have 7: "\<forall>e. error r = Some e \<and> e \<noteq> [] \<longrightarrow>
          error_paragraph r = ''<p style=\"color: #ef4444; font-size: 0.9em;\">Error: '' @ e @ ''</p>''
          \<and> sublist (error_paragraph r) (result_item (name, r))"
    using item_error [of r name] by (auto simp: error_paragraph_def)
  have 8: "\<forall>d. details r = Some d \<and> d \<noteq> [] \<longrightarrow>
          details_paragraph r = ''<p style=\"color: #6b7280; font-size: 0.9em;\">'' @ d @ ''</p>''
          \<and> sublist (details_paragraph r) (result_item (name, r))"
    using item_details [of r name] by (auto simp: details_paragraph_def)
  have m: "(name, r) \<in> set (results (build_report env ?all))"
    by (simp add: build_report_def)
  have 9: "\<forall>e. error r = Some e \<and> e \<noteq> [] \<longrightarrow>
          sublist (''<p style=\"color: #ef4444; font-size: 0.9em;\">Error: '' @ e @ ''</p>'')
            (generateHTMLReport (toLocaleString env) (build_report env ?all))"
  proof (intro allI impI)
    fix e assume e: "error r = Some e \<and> e \<noteq> []"
    then have "error_paragraph r = ''<p style=\"color: #ef4444; font-size: 0.9em;\">Error: '' @ e @ ''</p>''"
      by (simp add: error_paragraph_def)
    with item_error [of r name]
    have "sublist (''<p style=\"color: #ef4444; font-size: 0.9em;\">Error: '' @ e @ ''</p>'')
            (result_item (name, r))"
      by (simp only:)
    with m show "sublist (''<p style=\"color: #ef4444; font-size: 0.9em;\">Error: '' @ e @ ''</p>'')
            (generateHTMLReport (toLocaleString env) (build_report env ?all))"
      by (rule html_report_item)
  qed
  have 10: "\<forall>d. details r = Some d \<and> d \<noteq> [] \<longrightarrow>
          sublist (''<p style=\"color: #6b7280; font-size: 0.9em;\">'' @ d @ ''</p>'')
            (generateHTMLReport (toLocaleString env) (build_report env ?all))"
  proof (intro allI impI)
    fix d assume d: "details r = Some d \<and> d \<noteq> []"
    then have "details_paragraph r = ''<p style=\"color: #6b7280; font-size: 0.9em;\">'' @ d @ ''</p>''"
      by (simp add: details_paragraph_def)
    with item_details [of r name]
    have "sublist (''<p style=\"color: #6b7280; font-size: 0.9em;\">'' @ d @ ''</p>'')
            (result_item (name, r))"
      by (simp only:)
    with m show "sublist (''<p style=\"color: #6b7280; font-size: 0.9em;\">'' @ d @ ''</p>'')
            (generateHTMLReport (toLocaleString env) (build_report env ?all))"
      by (rule html_report_item)
  qed
  note 11 = html_error_only_when_present [of "toLocaleString env" env before name r after]
  note 12 = html_details_only_when_present [of "toLocaleString env" env before name r after]
  have 13: "(\<forall>entry \<in> set others.
            (error (snd entry) = None \<or> error (snd entry) = Some [])
            \<and> marker_free (fst entry) \<and> marker_free (description (snd entry))
            \<and> (\<forall>d. details (snd entry) = Some d \<longrightarrow> marker_free d))
         \<and> marker_free (toLocaleString env (now env)) \<longrightarrow>
         \<not> sublist ''Error: ''
             (generateHTMLReport (toLocaleString env) (build_report env others))"
  proof (intro impI)
    assume h: "(\<forall>entry \<in> set others.
            (error (snd entry) = None \<or> error (snd entry) = Some [])
            \<and> marker_free (fst entry) \<and> marker_free (description (snd entry))
            \<and> (\<forall>d. details (snd entry) = Some d \<longrightarrow> marker_free d))
         \<and> marker_free (toLocaleString env (now env))"
    show "\<not> sublist ''Error: ''
             (generateHTMLReport (toLocaleString env) (build_report env others))"
    proof (rule html_no_error_text)
      fix n x assume "(n, x) \<in> set others"
      with h show "(error x = None \<or> error x = Some []) \<and> marker_free n
             \<and> marker_free (description x) \<and> (\<forall>d. details x = Some d \<longrightarrow> marker_free d)"
        by fastforce
    next
      from h show "marker_free (toLocaleString env (now env))" by simp
    qed
  qed
  from s 1 2 3 4 5 6 7 8 9 10 11 12 13 show ?thesis
    by (intro conjI)
qed

theorem two_suite_report_witness:
  "error_paragraph \<lparr>status = PASSED, description = ''first'', error = None, details = None\<rparr> = []
   \<and> details_paragraph \<lparr>status = PASSED, description = ''first'', error = None, details = None\<rparr> = []
   \<and> error_paragraph \<lparr>status = FAILED, description = ''second'', error = Some ''timeout'',
                        details = Some ''slow''\<rparr>
       = ''<p style=\"color: #ef4444; font-size: 0.9em;\">Error: timeout</p>''
   \<and> details_paragraph \<lparr>status = FAILED, description = ''second'', error = Some ''timeout'',
                          details = Some ''slow''\<rparr>
       = ''<p style=\"color: #6b7280; font-size: 0.9em;\">slow</p>''
   \<and> sublist ''<p style=\"color: #ef4444; font-size: 0.9em;\">Error: timeout</p>''
        (generateHTMLReport (\<lambda>ts. ts)
           (build_report (report_env.truncate (example_env True Exits Exits Exits))
              [(''a'', \<lparr>status = PASSED, description = ''first'', error = None, details = None\<rparr>),
               (''b'', \<lparr>status = FAILED, description = ''second'', error = Some ''timeout'',
                        details = Some ''slow''\<rparr>)]))
   \<and> sublist ''<p style=\"color: #6b7280; font-size: 0.9em;\">slow</p>''
        (generateHTMLReport (\<lambda>ts. ts)
           (build_report (report_env.truncate (example_env True Exits Exits Exits))
              [(''a'', \<lparr>status = PASSED, description = ''first'', error = None, details = None\<rparr>),
               (''b'', \<lparr>status = FAILED, description = ''second'', error = Some ''timeout'',
                        details = Some ''slow''\<rparr>)]))
   \<and> \<not> sublist ''Error: ''
        (generateHTMLReport (\<lambda>ts. ts)
           (build_report (report_env.truncate (example_env True Exits Exits Exits))
              [(''a'', \<lparr>status = PASSED, description = ''first'', error = None, details = None\<rparr>),
               (''b'', \<lparr>status = SKIPPED, description = ''SEO'', error = Some [],
                        details = Some ''slow''\<rparr>)]))"
proof -
  let ?env = "report_env.truncate (example_env True Exits Exits Exits)"
  let ?a = "\<lparr>status = PASSED, description = ''first'', error = None, details = None\<rparr>"
  let ?b = "\<lparr>status = FAILED, description = ''second'', error = Some ''timeout'',
             details = Some ''slow''\<rparr>"
  let ?c = "\<lparr>status = SKIPPED, description = ''SEO'', error = Some [], details = Some ''slow''\<rparr>"
  have e: "toLocaleString ?env = (\<lambda>ts. ts)"
    by (simp add: example_env_def)
  have e': "toLocaleString (example_env True Exits Exits Exits) = (\<lambda>ts. ts)"
    by (simp add: example_env_def)
  have absent: "error_paragraph ?a = [] \<and> details_paragraph ?a = []"
    using two_suite_report [where r = ?a and env = ?env and before = "[]" and name = "''a''"
            and after = "[]" and da = "[]" and db = "[]" and others = "[]"]
    by simp
  have present: "error_paragraph ?b
       = ''<p style=\"color: #ef4444; font-size: 0.9em;\">Error: timeout</p>''
     \<and> details_paragraph ?b = ''<p style=\"color: #6b7280; font-size: 0.9em;\">slow</p>''
     \<and> sublist ''<p style=\"color: #ef4444; font-size: 0.9em;\">Error: timeout</p>''
        (generateHTMLReport (\<lambda>ts. ts) (build_report ?env [(''a'', ?a), (''b'', ?b)]))
     \<and> sublist ''<p style=\"color: #6b7280; font-size: 0.9em;\">slow</p>''
        (generateHTMLReport (\<lambda>ts. ts) (build_report ?env [(''a'', ?a), (''b'', ?b)]))"
    using two_suite_report [where r = ?b and env = ?env and before = "[(''a'', ?a)]"
            and name = "''b''" and after = "[]" and da = "[]" and db = "[]" and others = "[]"]
    by (simp add: e')
  have h: "(\<forall>entry \<in> set [(''a'', ?a), (''b'', ?c)].
            (error (snd entry) = None \<or> error (snd entry) = Some [])
            \<and> marker_free (fst entry) \<and> marker_free (description (snd entry))
            \<and> (\<forall>d. details (snd entry) = Some d \<longrightarrow> marker_free d))
         \<and> marker_free (toLocaleString ?env (now ?env))"
    by (simp add: example_env_def)
  from two_suite_report [where env = ?env and others = "[(''a'', ?a), (''b'', ?c)]"
            and r = ?a and before = "[]" and name = "''a''" and after = "[]" and da = "[]"
            and db = "[]"]
  have "(\<forall>entry \<in> set [(''a'', ?a), (''b'', ?c)].
            (error (snd entry) = None \<or> error (snd entry) = Some [])
            \<and> marker_free (fst entry) \<and> marker_free (description (snd entry))
            \<and> (\<forall>d. details (snd entry) = Some d \<longrightarrow> marker_free d))
         \<and> marker_free (toLocaleString ?env (now ?env)) \<longrightarrow>
         \<not> sublist ''Error: ''
             (generateHTMLReport (toLocaleString ?env)
                (build_report ?env [(''a'', ?a), (''b'', ?c)]))"
    by (elim conjE)
  from this h have "\<not> sublist ''Error: ''
             (generateHTMLReport (toLocaleString ?env)
                (build_report ?env [(''a'', ?a), (''b'', ?c)]))"
    by (rule mp)
  then have none: "\<not> sublist ''Error: ''
        (generateHTMLReport (\<lambda>ts. ts) (build_report ?env [(''a'', ?a), (''b'', ?c)]))"
    unfolding e .
  from absent present none show ?thesis by simp
qed

section \<open>The summary and its score\<close>

lemma bit_length_bounds:
  "0 < n \<Longrightarrow> 1 \<le> bit_length n \<and> 2 ^ nat (bit_length n - 1) \<le> n \<and> n < 2 ^ nat (bit_length n)"
proof (induction n rule: bit_length.induct)
  case (1 n)
  show ?case
  proof (cases "n div 2 = 0")
    case True
    with 1(2) have n: "n = 1" by presburger
    have "bit_length 1 = 1" by (simp add: bit_length.simps [of 1] bit_length.simps [of 0])
    with n show ?thesis by simp
  next
    case False
    with 1(2) have pos: "0 < n div 2" by presburger
    from 1(2) have "\<not> n \<le> 0" by simp
    from 1(1) [OF this pos] have ih: "1 \<le> bit_length (n div 2)"
      "2 ^ nat (bit_length (n div 2) - 1) \<le> n div 2" "n div 2 < 2 ^ nat (bit_length (n div 2))"
      by simp_all
    have bl: "bit_length n = 1 + bit_length (n div 2)"
      using 1(2) by (simp add: bit_length.simps [of n])
    have e1: "nat (bit_length n - 1) = Suc (nat (bit_length (n div 2) - 1))"
      using bl ih(1) by simp
    have e2: "nat (bit_length n) = Suc (nat (bit_length (n div 2)))"
      using bl ih(1) by simp
    have "2 * (n div 2) \<le> n" "n \<le> 2 * (n div 2) + 1" by presburger+
    with ih show ?thesis unfolding e1 e2 using bl by simp
  qed
qed

lemma round_ties_even_error: "\<bar>of_int (round_ties_even y) - y\<bar> \<le> 1 / 2"
proof -
  have "of_int \<lfloor>y\<rfloor> \<le> y" "y < of_int \<lfloor>y\<rfloor> + 1" by linarith+
  then show ?thesis
    unfolding round_ties_even_def Let_def by (auto simp: abs_le_iff)
qed

lemma power_int_nat: "0 \<le> k \<Longrightarrow> (2::rat) powi k = 2 ^ nat k"
  by (simp add: power_int_def)

lemma ilog2_lower:
  assumes "0 < x"
  shows "2 powi (ilog2 x) \<le> x"
proof -
  obtain a b where q: "quotient_of x = (a, b)" by (cases "quotient_of x")
  have b: "0 < b" using q by (rule quotient_of_denom_pos)
  have x: "x = of_int a / of_int b" using q by (rule quotient_of_div)
  have a: "0 < a" using assms b unfolding x by (simp add: zero_less_divide_iff)
  let ?d = "bit_length a - bit_length b"
  show ?thesis
  proof (cases "2 powi ?d \<le> x")
    case True
    then show ?thesis by (simp add: ilog2_def q)
  next
    case False
    then have i: "ilog2 x = ?d - 1" by (simp add: ilog2_def q)
    from bit_length_bounds [OF a] have la: "1 \<le> bit_length a" "2 ^ nat (bit_length a - 1) \<le> a"
      by simp_all
    from bit_length_bounds [OF b] have lb: "1 \<le> bit_length b" "b < 2 ^ nat (bit_length b)"
      by simp_all
    have "(2::rat) powi (?d - 1) = 2 powi (bit_length a - 1) / 2 powi (bit_length b)"
      using power_int_diff [of "2::rat" "bit_length a - 1" "bit_length b"] by (simp add: algebra_simps)
    also have "\<dots> = 2 ^ nat (bit_length a - 1) / 2 ^ nat (bit_length b)"
      using la(1) lb(1) by (simp add: power_int_nat)
    also have "\<dots> \<le> of_int a / of_int b"
    proof (rule frac_le)
      show "(0::rat) \<le> of_int a" using a by simp
      have "rat_of_int (2 ^ nat (bit_length a - 1)) \<le> of_int a" using la(2) by (simp only: of_int_le_iff)
      then show "(2::rat) ^ nat (bit_length a - 1) \<le> of_int a" by simp
      show "(0::rat) < of_int b" using b by simp
      have "rat_of_int b \<le> of_int (2 ^ nat (bit_length b))" using lb(2) by (simp only: of_int_le_iff)
      then show "rat_of_int b \<le> 2 ^ nat (bit_length b)" by simp
    qed
    finally have "2 powi (?d - 1) \<le> x" by (simp only: x [symmetric])
    then show ?thesis by (simp only: i)
  qed
qed

lemma ilog2_upper:
  assumes "0 < x"
  shows "x < 2 powi (ilog2 x + 1)"
proof -
  obtain a b where q: "quotient_of x = (a, b)" by (cases "quotient_of x")
  have b: "0 < b" using q by (rule quotient_of_denom_pos)
  have x: "x = of_int a / of_int b" using q by (rule quotient_of_div)
  have a: "0 < a" using assms b unfolding x by (simp add: zero_less_divide_iff)
  let ?d = "bit_length a - bit_length b"
  show ?thesis
  proof (cases "2 powi ?d \<le> x")
    case False
    then have i: "ilog2 x = ?d - 1" by (simp add: ilog2_def q)
    from False show ?thesis by (simp add: i)
  next
    case True
    then have i: "ilog2 x = ?d" by (simp add: ilog2_def q)
    from bit_length_bounds [OF a] have la: "1 \<le> bit_length a" "a < 2 ^ nat (bit_length a)"
      by simp_all
    from bit_length_bounds [OF b] have lb: "1 \<le> bit_length b" "2 ^ nat (bit_length b - 1) \<le> b"
      by simp_all
    have "of_int a / of_int b < (2::rat) ^ nat (bit_length a) / 2 ^ nat (bit_length b - 1)"
    proof (rule frac_less)
      show "(0::rat) \<le> of_int a" using a by simp
      have "rat_of_int a < of_int (2 ^ nat (bit_length a))" using la(2) by (simp only: of_int_less_iff)
      then show "rat_of_int a < 2 ^ nat (bit_length a)" by simp
      show "(0::rat) < 2 ^ nat (bit_length b - 1)" by simp
      have "rat_of_int (2 ^ nat (bit_length b - 1)) \<le> of_int b" using lb(2) by (simp only: of_int_le_iff)
      then show "(2::rat) ^ nat (bit_length b - 1) \<le> of_int b" by simp
    qed
    also have "\<dots> = 2 powi (bit_length a) / 2 powi (bit_length b - 1)"
      using la(1) lb(1) by (simp add: power_int_nat)
    also have "\<dots> = 2 powi (?d + 1)"
      using power_int_diff [of "2::rat" "bit_length a" "bit_length b - 1"] by (simp add: algebra_simps)
    finally have "x < 2 powi (?d + 1)" by (simp only: x [symmetric])
    then show ?thesis by (simp only: i)
  qed
qed

lemma binary64_error:
  assumes "0 < x"
  shows "\<bar>binary64 x - x\<bar> \<le> x / 2 ^ 53"
proof -
  define ulp :: rat where "ulp = 2 powi (ilog2 x - 52)"
  have ulp_pos: "0 < ulp" by (simp add: ulp_def)
  have "ulp = 2 powi (ilog2 x) / 2 powi 52"
    unfolding ulp_def using power_int_diff [of "2::rat" "ilog2 x" 52] by simp
  also have "\<dots> \<le> x / 2 powi 52"
    using ilog2_lower [OF assms] by (simp add: divide_right_mono)
  finally have ulp_le: "ulp \<le> x / 2 ^ 52" by (simp add: power_int_nat)
  have b: "binary64 x = of_int (round_ties_even (x / ulp)) * ulp"
    using assms by (simp add: binary64_def ulp_def Let_def)
  have "binary64 x - x = (of_int (round_ties_even (x / ulp)) - x / ulp) * ulp"
    unfolding b using ulp_pos by (simp add: field_simps)
  then have "\<bar>binary64 x - x\<bar> = \<bar>of_int (round_ties_even (x / ulp)) - x / ulp\<bar> * ulp"
    using ulp_pos by (simp add: abs_mult)
  also have "\<dots> \<le> 1 / 2 * ulp"
    using round_ties_even_error [of "x / ulp"] ulp_pos by (simp add: mult_right_mono)
  also have "\<dots> \<le> 1 / 2 * (x / 2 ^ 52)"
    using ulp_le by simp
  also have "\<dots> = x / 2 ^ 53" by simp
  finally show ?thesis .
qed

lemma binary64_zero: "binary64 0 = 0"
  by (simp add: binary64_def)

lemma percentage_error:
  assumes "0 < t" and "p \<le> t"
  shows "\<bar>binary64 (binary64 (of_nat p / of_nat t) * 100) - 100 * of_nat p / of_nat t\<bar>
           \<le> 201 / 2 ^ 53"
proof (cases "p = 0")
  case True
  then show ?thesis by (simp add: binary64_zero)
next
  case False
  define u :: rat where "u = 1 / 2 ^ 53"
  have u: "0 < u" "u \<le> 1 / 100" by (simp_all add: u_def)
  define x :: rat where "x = of_nat p / of_nat t"
  define x1 where "x1 = binary64 x"
  define y1 where "y1 = binary64 (x1 * 100)"
  have x_pos: "0 < x" using False assms by (simp add: x_def)
  have x_le: "x \<le> 1" using assms by (simp add: x_def)
  have "\<bar>x1 - x\<bar> \<le> x / 2 ^ 53" unfolding x1_def using x_pos by (rule binary64_error)
  then have e1: "\<bar>x1 - x\<bar> \<le> x * u" by (simp only: u_def times_divide_eq_right mult_1_right)
  have "x * u \<le> 1 * u" using x_le u(1) by (intro mult_right_mono) simp_all
  with e1 have e1': "\<bar>x1 - x\<bar> \<le> u" by simp
  have "x * u < x * 1" using x_pos u by (intro mult_strict_left_mono) simp_all
  with e1 have x1_pos: "0 < x1" by (simp add: abs_le_iff)
  have x1_le: "x1 \<le> 101 / 100" using e1' x_le u(2) by (simp add: abs_le_iff)
  have y_pos: "0 < x1 * 100" using x1_pos by simp
  have "\<bar>y1 - x1 * 100\<bar> \<le> x1 * 100 / 2 ^ 53"
    unfolding y1_def using y_pos by (rule binary64_error)
  then have e2: "\<bar>y1 - x1 * 100\<bar> \<le> (x1 * 100) * u"
    by (simp only: u_def times_divide_eq_right mult_1_right)
  have "(x1 * 100) * u \<le> 101 * u" using x1_le u(1) by (intro mult_right_mono) simp_all
  with e2 have e2': "\<bar>y1 - x1 * 100\<bar> \<le> 101 * u" by linarith
  have b1: "- u \<le> x1 - x" "x1 - x \<le> u" using e1' by (simp_all add: abs_le_iff)
  have b2: "- (101 * u) \<le> y1 - x1 * 100" "y1 - x1 * 100 \<le> 101 * u"
    using e2' by (simp_all add: abs_le_iff)
  have "- (201 * u) \<le> y1 - 100 * x" "y1 - 100 * x \<le> 201 * u"
    using b1 b2 by linarith+
  then have "\<bar>y1 - 100 * x\<bar> \<le> 201 * u" by (simp add: abs_le_iff)
  then have "\<bar>y1 - 100 * x\<bar> \<le> 201 / 2 ^ 53"
    by (simp only: u_def times_divide_eq_right mult_1_right)
  then show ?thesis by (simp only: y1_def x1_def x_def times_divide_eq_right)
qed

lemma floor_near_quotient:
  fixes N D :: int and z :: rat
  assumes D: "0 < D" and close: "\<bar>z - of_int N / of_int D\<bar> < 1 / of_int D"
  shows "(\<lfloor>z\<rfloor> = N div D \<or> \<lfloor>z\<rfloor> = N div D - 1) \<and> (N mod D \<noteq> 0 \<longrightarrow> \<lfloor>z\<rfloor> = N div D)"
proof -
  define k where "k = N div D"
  define r where "r = N mod D"
  have N: "N = D * k + r" by (simp add: k_def r_def)
  have r: "0 \<le> r" "r < D" using D by (simp_all add: r_def)
  have q: "of_int N / of_int D = (of_int k :: rat) + of_int r / of_int D"
    using D by (simp add: N field_simps)
  have Dr: "(0::rat) < of_int D" using D by simp
  have lo: "of_int k + (of_int r - 1) / of_int D < z"
    using close unfolding q by (simp add: abs_less_iff diff_divide_distrib)
  have hi: "z < of_int k + (of_int r + 1) / of_int D"
    using close unfolding q by (simp add: abs_less_iff add_divide_distrib)
  have "(of_int r + 1) / (of_int D :: rat) \<le> 1"
  proof -
    have "r + 1 \<le> D" using r by simp
    then have "(of_int (r + 1) :: rat) \<le> of_int D" by (simp only: of_int_le_iff)
    then show ?thesis using Dr by simp
  qed
  with hi have up: "z < of_int k + 1" by linarith
  have "- 1 \<le> (of_int r - 1) / (of_int D :: rat)"
  proof -
    have "- D \<le> r - 1" using r D by simp
    then have "(of_int (- D) :: rat) \<le> of_int (r - 1)" by (simp only: of_int_le_iff)
    then show ?thesis using Dr by (simp add: pos_le_divide_eq)
  qed
  with lo have down: "of_int k - 1 < z" by linarith
  have a: "\<lfloor>z\<rfloor> = k \<or> \<lfloor>z\<rfloor> = k - 1"
  proof (cases "of_int k \<le> z")
    case True
    with up have "\<lfloor>z\<rfloor> = k" by (simp add: floor_unique)
    then show ?thesis by simp
  next
    case False
    with down have "\<lfloor>z\<rfloor> = k - 1" by (intro floor_unique) simp_all
    then show ?thesis by simp
  qed
  have b: "r \<noteq> 0 \<Longrightarrow> \<lfloor>z\<rfloor> = k"
  proof -
    assume "r \<noteq> 0"
    with r have "1 \<le> r" by simp
    then have "(0::rat) \<le> of_int r - 1" by simp
    then have "0 \<le> (of_int r - 1) / (of_int D :: rat)" using Dr by simp
    with lo have "of_int k < z" by linarith
    with up show "\<lfloor>z\<rfloor> = k" by (simp add: floor_unique)
  qed
  show ?thesis using a b by (simp add: k_def r_def)
qed

lemma overall_score_exact:
  assumes "0 < t" and "p \<le> t" and "t < 2 ^ 44"
  shows "(overall_score p t = (200 * int p + int t) div (2 * int t)
          \<or> overall_score p t = (200 * int p + int t) div (2 * int t) - 1)
       \<and> ((200 * int p + int t) mod (2 * int t) \<noteq> 0 \<longrightarrow>
             overall_score p t = (200 * int p + int t) div (2 * int t))"
proof -
  define y1 where "y1 = binary64 (binary64 (of_nat p / of_nat t) * 100)"
  have o: "overall_score p t = \<lfloor>y1 + 1 / 2\<rfloor>"
    using assms(1) by (simp add: overall_score_def Math_round_def y1_def)
  have D: "0 < 2 * int t" using assms(1) by simp
  have q: "of_int (200 * int p + int t) / of_int (2 * int t)
             = 100 * of_nat p / of_nat t + (1 / 2 :: rat)"
    using assms(1) by (simp add: field_simps)
  have "(201::rat) / 2 ^ 53 < 1 / 2 ^ 45" by simp
  also have "\<dots> \<le> 1 / of_int (2 * int t)"
  proof -
    have "2 * int t \<le> 2 ^ 45" using assms(3) by simp
    then have "(of_int (2 * int t) :: rat) \<le> of_int (2 ^ 45)" by (simp only: of_int_le_iff)
    then show ?thesis using D by (simp add: frac_le)
  qed
  finally have small: "(201::rat) / 2 ^ 53 < 1 / of_int (2 * int t)" .
  have "\<bar>(y1 + 1 / 2) - of_int (200 * int p + int t) / of_int (2 * int t)\<bar>
          = \<bar>y1 - 100 * of_nat p / of_nat t\<bar>"
    unfolding q by simp
  also have "\<dots> \<le> 201 / 2 ^ 53"
    unfolding y1_def using assms(1,2) by (rule percentage_error)
  finally have "\<bar>(y1 + 1 / 2) - of_int (200 * int p + int t) / of_int (2 * int t)\<bar>
                  < 1 / of_int (2 * int t)"
    using small by linarith
  from floor_near_quotient [OF D this] show ?thesis unfolding o .
qed


lemma spec_score_div:
  "0 < t \<Longrightarrow> spec_score p t = (200 * int p + int t) div (2 * int t)"
proof -
  assume t: "0 < t"
  have "100 * of_nat p / of_nat t + (1 / 2 :: rat)
          = of_int (200 * int p + int t) / of_int (2 * int t)"
    using t by (simp add: field_simps)
  then have "round (100 * of_nat p / of_nat t :: rat)
          = \<lfloor>(of_int (200 * int p + int t) :: rat) / of_int (2 * int t)\<rfloor>"
    by (simp only: round_def)
  also have "\<dots> = (200 * int p + int t) div (2 * int t)"
    by (rule floor_divide_of_int_eq)
  finally show ?thesis using t by (simp add: spec_score_def)
qed

lemma tie_iff_frac:
  assumes t: "0 < t" and m: "(200 * int p + int t) mod (2 * int t) = 0"
  shows "frac (100 * of_nat p / of_nat t :: rat) = 1 / 2"
proof -
  from m obtain k where k: "200 * int p + int t = 2 * int t * k" by (auto simp: mod_eq_0_iff_dvd)
  then have "(of_int (200 * int p + int t) :: rat) = of_int (2 * int t * k)" by (simp only:)
  then have "(100 * of_nat p / of_nat t :: rat) = of_int (k - 1) + 1 / 2"
    using t by (simp add: field_simps)
  then show ?thesis by (simp only: frac_unique_iff) simp
qed

lemma count_status_le: "count_status s rs \<le> length rs"
  by (simp add: count_status_def)

lemma small_total_no_tie:
  assumes "0 < t" and "t \<le> 3"
  shows "(200 * int p + int t) mod (2 * int t) \<noteq> 0"
proof -
  consider "t = 1" | "t = 2" | "t = 3" using assms by arith
  then show ?thesis
  proof cases
    case 1
    have "odd (200 * int p + 1)" by simp
    then have "\<not> 2 dvd (200 * int p + 1)" .
    then show ?thesis using 1 by (simp add: mod_eq_0_iff_dvd)
  next
    case 2
    have "(200 * int p + 2) mod 4 = (2 + 4 * (50 * int p)) mod 4" by (simp add: algebra_simps)
    also have "\<dots> = 2 mod 4" by (rule mod_mult_self2)
    finally show ?thesis using 2 by simp
  next
    case 3
    have "odd (200 * int p + 3)" by simp
    then have "\<not> 2 dvd (200 * int p + 3)" .
    moreover have "(2::int) dvd 6" by simp
    ultimately have "\<not> 6 dvd (200 * int p + 3)" using dvd_trans by blast
    then show ?thesis using 3 by (simp add: mod_eq_0_iff_dvd)
  qed
qed

lemma overall_score_23_40: "overall_score 23 40 = 57"
  by code_simp

text \<open>
  Claim C2, as the specification states it, fails for the score: with 23 of 40 suites
  passed, \<open>100 * 23 / 40\<close> is 57.5 and rounds to 58, but the double nearest to 23/40,
  times 100, is a double just below 57.5, and \<^verbatim>\<open>Math.round\<close> gives 57.
\<close>

theorem summary_score_counterexample:
  "length (many_results 23 40) = 40
   \<and> distinct (map fst (many_results 23 40))
   \<and> passed (summarize (many_results 23 40)) = 23
   \<and> overallScore (summarize (many_results 23 40)) = 57
   \<and> round (100 * 23 / 40 :: rat) = 58"
proof -
  have 1: "length (many_results 23 40) = 40" by (simp add: many_results_def)
  have 2: "distinct (map fst (many_results 23 40))" by code_simp
  have 3: "count_status PASSED (many_results 23 40) = 23" by code_simp
  have 4: "round (100 * 23 / 40 :: rat) = 58" by code_simp
  show ?thesis using 1 2 3 4 by (simp add: summarize_def overall_score_23_40)
qed

text \<open>
  Claim C2, amended. For every results object, the passed, failed and skipped counts add
  up to the number of results, and the score of no results is 0. For a non-empty one
  (with fewer than \<open>2\<^sup>4\<^sup>4\<close> results) the score is \<open>round(100 * passed / total)\<close> or one less;
  it is \<open>round(100 * passed / total)\<close> whenever \<open>100 * passed / total\<close> is not exactly
  halfway between two integers, and so for every total up to 3, which is all that the
  runner records.
\<close>

theorem summary_of_results:
  "passed (summarize rs) + failed (summarize rs) + skipped (summarize rs) = length rs
   \<and> totalTestSuites (summarize rs) = length rs
   \<and> (rs = [] \<longrightarrow> overallScore (summarize rs) = 0)
   \<and> (rs \<noteq> [] \<and> length rs < 2 ^ 44 \<longrightarrow>
         (overallScore (summarize rs) = spec_score (passed (summarize rs)) (length rs)
          \<or> overallScore (summarize rs) = spec_score (passed (summarize rs)) (length rs) - 1)
       \<and> (frac (100 * of_nat (passed (summarize rs)) / of_nat (length rs) :: rat) \<noteq> 1 / 2 \<longrightarrow>
            overallScore (summarize rs) = spec_score (passed (summarize rs)) (length rs))
       \<and> (length rs \<le> 3 \<longrightarrow>
            overallScore (summarize rs) = spec_score (passed (summarize rs)) (length rs)))"
proof -
  let ?p = "count_status PASSED rs" and ?t = "length rs"
  have sel: "passed (summarize rs) = ?p" "overallScore (summarize rs) = overall_score ?p ?t"
    by (simp_all add: summarize_def)
  have a: "passed (summarize rs) + failed (summarize rs) + skipped (summarize rs) = length rs"
    using count_status_total [of rs] by (simp add: summarize_def)
  have b: "totalTestSuites (summarize rs) = length rs" by (simp add: summarize_def)
  have c: "rs = [] \<longrightarrow> overallScore (summarize rs) = 0"
    by (simp add: summarize_def overall_score_def)
  have d: "rs \<noteq> [] \<and> length rs < 2 ^ 44 \<longrightarrow>
         (overall_score ?p ?t = spec_score ?p ?t \<or> overall_score ?p ?t = spec_score ?p ?t - 1)
       \<and> (frac (100 * of_nat ?p / of_nat ?t :: rat) \<noteq> 1 / 2 \<longrightarrow>
            overall_score ?p ?t = spec_score ?p ?t)
       \<and> (?t \<le> 3 \<longrightarrow> overall_score ?p ?t = spec_score ?p ?t)"
  proof
    assume h: "rs \<noteq> [] \<and> length rs < 2 ^ 44"
    then have t: "0 < ?t" and lt: "?t < 2 ^ 44" by simp_all
    have le: "?p \<le> ?t" by (rule count_status_le)
    note ex = overall_score_exact [OF t le lt, folded spec_score_div [OF t]]
    have "frac (100 * of_nat ?p / of_nat ?t :: rat) \<noteq> 1 / 2 \<Longrightarrow>
            (200 * int ?p + int ?t) mod (2 * int ?t) \<noteq> 0"
      using tie_iff_frac [OF t, of ?p] by auto
    moreover have "?t \<le> 3 \<Longrightarrow> (200 * int ?p + int ?t) mod (2 * int ?t) \<noteq> 0"
      using small_total_no_tie [OF t, of ?p] by auto
    ultimately show "(overall_score ?p ?t = spec_score ?p ?t \<or> overall_score ?p ?t = spec_score ?p ?t - 1)
       \<and> (frac (100 * of_nat ?p / of_nat ?t :: rat) \<noteq> 1 / 2 \<longrightarrow>
            overall_score ?p ?t = spec_score ?p ?t)
       \<and> (?t \<le> 3 \<longrightarrow> overall_score ?p ?t = spec_score ?p ?t)"
      using ex by blast
  qed
  show ?thesis unfolding sel using a b c d unfolding sel by blast
qed

theorem summary_of_results_witness:
  "overallScore (summarize
      [(''a'', \<lparr>status = PASSED, description = ''first'', error = None, details = None\<rparr>),
       (''b'', \<lparr>status = FAILED, description = ''second'', error = Some ''timeout'', details = None\<rparr>),
       (''c'', \<lparr>status = SKIPPED, description = ''third'', error = None, details = None\<rparr>)])
     = spec_score 1 3
   \<and> spec_score 1 3 = 33
   \<and> overallScore (summarize []) = 0"
proof -
  let ?rs = "[(''a'', \<lparr>status = PASSED, description = ''first'', error = None, details = None\<rparr>),
       (''b'', \<lparr>status = FAILED, description = ''second'', error = Some ''timeout'', details = None\<rparr>),
       (''c'', \<lparr>status = SKIPPED, description = ''third'', error = None, details = None\<rparr>)]"
  have p: "passed (summarize ?rs) = 1" by (simp add: summarize_def count_status_def)
  have l: "?rs \<noteq> [] \<and> length ?rs < 2 ^ 44" "length ?rs \<le> 3" "length ?rs = 3" by simp_all
  have s: "spec_score 1 3 = 33" by code_simp
  from summary_of_results [of ?rs] l(1,2) have "overallScore (summarize ?rs)
      = spec_score (passed (summarize ?rs)) (length ?rs)" by blast
  then have "overallScore (summarize ?rs) = spec_score 1 3" by (simp only: p l(3))
  moreover have "overallScore (summarize []) = 0" using summary_of_results [of "[]"] by blast
  ultimately show ?thesis using s by blast
qed

end
